theory Spec2Isabelle
  imports Main
begin

section \<open>Data model (apps/backend/src/types/index.ts)\<close>

text \<open>
  Numbers of the registry file are epoch timestamps in milliseconds and list positions;
  they are modelled as \<open>int\<close>. An optional property (\<open>x?: T\<close>) is an \<open>option\<close>.
  Field names are prefixed where two interfaces of the source share a property name.
\<close>

datatype AccountStatus =
  available | rate_limited_claude | rate_limited_gemini | rate_limited_all

datatype family = Claude | Gemini

record RateLimitInfo =
  resetTime :: int
  timeUntilReset :: int
  isExpired :: bool

record RateLimits =
  rl_claude :: "RateLimitInfo option"
  rl_gemini :: "RateLimitInfo option"

record LocalAccount =
  email :: string
  projectId :: "string option"
  managedProjectId :: "string option"
  addedAt :: int
  lastUsed :: int
  isActive :: bool
  activeForClaude :: bool
  activeForGemini :: bool
  status :: AccountStatus
  rateLimits :: RateLimits

record RateLimitResetTimes =
  reset_claude :: "int option"
  reset_gemini :: "int option"

record RawAccountData =
  raw_email :: string
  raw_refreshToken :: string
  raw_projectId :: "string option"
  raw_managedProjectId :: "string option"
  raw_addedAt :: int
  raw_lastUsed :: int
  rateLimitResetTimes :: "RateLimitResetTimes option"

record ActiveIndexByFamily =
  idx_claude :: "int option"
  idx_gemini :: "int option"

record RawAccountsFile =
  version :: int
  accounts :: "RawAccountData list"
  activeIndex :: int
  activeIndexByFamily :: "ActiveIndexByFamily option"

datatype AccountDiff =
  Add string LocalAccount        \<comment> \<open>\<open>{ op: 'add', email, account }\<close>\<close>
| Update string LocalAccount     \<comment> \<open>\<open>{ op: 'update', email, changes: account }\<close>\<close>
| Remove string                  \<comment> \<open>\<open>{ op: 'remove', email }\<close>\<close>

text \<open>The events the service emits, in the order of the \<open>emit\<close> calls.\<close>

datatype event =
  accounts_loaded "LocalAccount list"
| accounts_changed "AccountDiff list"
| rate_limits_updated "LocalAccount list"
| rate_limit_cleared string family

record AccountsFileService =
  lastData :: "RawAccountsFile option"
  processedAccounts :: "LocalAccount list"

section \<open>Status derivation (accountsFile.ts, calculateAccountStatus)\<close>

text \<open>\<open>info && !info.isExpired\<close>: an absent info is falsy, a present object is truthy.\<close>

definition limited :: "RateLimitInfo option \<Rightarrow> bool" where
  "limited info = (case info of None \<Rightarrow> False | Some i \<Rightarrow> \<not> isExpired i)"

definition calculateAccountStatus :: "LocalAccount \<Rightarrow> AccountStatus" where
  "calculateAccountStatus account =
     (let claudeLimited = limited (rl_claude (rateLimits account));
          geminiLimited = limited (rl_gemini (rateLimits account))
      in if claudeLimited \<and> geminiLimited then rate_limited_all
         else if claudeLimited then rate_limited_claude
         else if geminiLimited then rate_limited_gemini
         else available)"

section \<open>The builder (accountsFile.ts, processAccounts)\<close>

text \<open>
  \<open>resetTime ? {...} : undefined\<close> tests the epoch for truthiness: an absent epoch and
  the number 0 both give no info.
\<close>

definition buildRateLimit :: "int option \<Rightarrow> int \<Rightarrow> RateLimitInfo option" where
  "buildRateLimit resetEpoch now =
     (case resetEpoch of
        None \<Rightarrow> None
      | Some t \<Rightarrow>
          if t = 0 then None
          else Some \<lparr>resetTime = t, timeUntilReset = max 0 (t - now), isExpired = (t \<le> now)\<rparr>)"

text \<open>\<open>raw.rateLimitResetTimes?.claude\<close> and \<open>?.gemini\<close>.\<close>

definition rawReset :: "family \<Rightarrow> RawAccountData \<Rightarrow> int option" where
  "rawReset f raw =
     (case rateLimitResetTimes raw of
        None \<Rightarrow> None
      | Some ts \<Rightarrow> (case f of Claude \<Rightarrow> reset_claude ts | Gemini \<Rightarrow> reset_gemini ts))"

text \<open>\<open>data.activeIndexByFamily?.claude ?? data.activeIndex\<close>.\<close>

definition familyIndex :: "family \<Rightarrow> RawAccountsFile \<Rightarrow> int" where
  "familyIndex f data =
     (case activeIndexByFamily data of
        None \<Rightarrow> activeIndex data
      | Some by \<Rightarrow>
          (case (case f of Claude \<Rightarrow> idx_claude by | Gemini \<Rightarrow> idx_gemini by) of
             None \<Rightarrow> activeIndex data
           | Some i \<Rightarrow> i))"

definition processAccount :: "RawAccountsFile \<Rightarrow> int \<Rightarrow> nat \<Rightarrow> RawAccountData \<Rightarrow> LocalAccount" where
  "processAccount data now index raw =
     (let claudeRateLimit = buildRateLimit (rawReset Claude raw) now;
          geminiRateLimit = buildRateLimit (rawReset Gemini raw) now;
          account = \<lparr>email = raw_email raw,
                     projectId = raw_projectId raw,
                     managedProjectId = raw_managedProjectId raw,
                     addedAt = raw_addedAt raw,
                     lastUsed = raw_lastUsed raw,
                     isActive = (int index = activeIndex data),
                     activeForClaude = (int index = familyIndex Claude data),
                     activeForGemini = (int index = familyIndex Gemini data),
                     status = available,
                     rateLimits = \<lparr>rl_claude = claudeRateLimit, rl_gemini = geminiRateLimit\<rparr>\<rparr>
      in account\<lparr>status := calculateAccountStatus account\<rparr>)"

definition processFrom :: "RawAccountsFile \<Rightarrow> int \<Rightarrow> nat \<Rightarrow> RawAccountData list \<Rightarrow> LocalAccount list" where
  "processFrom data now n raws = map (\<lambda>(index, raw). processAccount data now index raw) (enumerate n raws)"

definition processAccounts :: "RawAccountsFile \<Rightarrow> int \<Rightarrow> LocalAccount list" where
  "processAccounts data now = processFrom data now 0 (accounts data)"

section \<open>The status clock (accountsFile.ts, updateRateLimitTimers)\<close>

text \<open>
  One family of one account: the new info and whether the family flipped from
  not expired to expired (\<open>!wasExpired && info.isExpired\<close>).
\<close>

definition updateFamily :: "int \<Rightarrow> RateLimitInfo option \<Rightarrow> RateLimitInfo option \<times> bool" where
  "updateFamily now info =
     (case info of
        None \<Rightarrow> (None, False)
      | Some i \<Rightarrow>
          (let newTimeUntilReset = max 0 (resetTime i - now);
               wasExpired = isExpired i;
               i' = i\<lparr>timeUntilReset := newTimeUntilReset, isExpired := (newTimeUntilReset = 0)\<rparr>
           in (Some i', \<not> wasExpired \<and> isExpired i')))"

text \<open>The body of the loop: the account after it, the events emitted, and \<open>hasChanges\<close>.\<close>

definition updateAccount :: "int \<Rightarrow> LocalAccount \<Rightarrow> LocalAccount \<times> event list \<times> bool" where
  "updateAccount now account =
     (let (c, claudeCleared) = updateFamily now (rl_claude (rateLimits account));
          (g, geminiCleared) = updateFamily now (rl_gemini (rateLimits account));
          account1 = account\<lparr>rateLimits := \<lparr>rl_claude = c, rl_gemini = g\<rparr>\<rparr>;
          newStatus = calculateAccountStatus account1;
          statusChanged = (newStatus \<noteq> status account1);
          account2 = (if statusChanged then account1\<lparr>status := newStatus\<rparr> else account1)
      in (account2,
          (if claudeCleared then [rate_limit_cleared (email account) Claude] else []) @
          (if geminiCleared then [rate_limit_cleared (email account) Gemini] else []),
          claudeCleared \<or> geminiCleared \<or> statusChanged))"

fun updateRateLimitTimers :: "int \<Rightarrow> LocalAccount list \<Rightarrow> LocalAccount list \<times> event list \<times> bool" where
  "updateRateLimitTimers now [] = ([], [], False)"
| "updateRateLimitTimers now (account # rest) =
     (let (account', evs, changed) = updateAccount now account;
          (rest', evs', changed') = updateRateLimitTimers now rest
      in (account' # rest', evs @ evs', changed \<or> changed'))"

text \<open>The interval callback of \<open>startRateLimitUpdater\<close>, run at time \<open>now\<close>.\<close>

definition tick :: "int \<Rightarrow> AccountsFileService \<Rightarrow> AccountsFileService \<times> event list" where
  "tick now st =
     (let (accs, evs, updated) = updateRateLimitTimers now (processedAccounts st)
      in (st\<lparr>processedAccounts := accs\<rparr>,
          evs @ (if updated then [rate_limits_updated accs] else [])))"

text \<open>Ticks at the times \<open>ts\<close>, one after the other; the events of all of them in order.\<close>

fun ticks :: "int list \<Rightarrow> AccountsFileService \<Rightarrow> AccountsFileService \<times> event list" where
  "ticks [] st = (st, [])"
| "ticks (t # ts) st =
     (let (st1, evs) = tick t st; (st2, evs') = ticks ts st1 in (st2, evs @ evs'))"

section \<open>The status rule as the specification words it\<close>

text \<open>
  Both families limited gives \<open>rate_limited_all\<close>, else the first family limited gives
  \<open>rate_limited_claude\<close>, else the second gives \<open>rate_limited_gemini\<close>, else \<open>available\<close>;
  a family is limited when its info is present and not expired.
\<close>

fun statusRule :: "RateLimitInfo option \<Rightarrow> RateLimitInfo option \<Rightarrow> AccountStatus" where
  "statusRule (Some c) (Some g) =
     (if \<not> isExpired c \<and> \<not> isExpired g then rate_limited_all
      else if \<not> isExpired c then rate_limited_claude
      else if \<not> isExpired g then rate_limited_gemini
      else available)"
| "statusRule (Some c) None = (if \<not> isExpired c then rate_limited_claude else available)"
| "statusRule None (Some g) = (if \<not> isExpired g then rate_limited_gemini else available)"
| "statusRule None None = available"

section \<open>The diff engine (accountsFile.ts, calculateDiffs)\<close>

subsection \<open>JSON.stringify of an account\<close>

text \<open>
  \<open>JSON.stringify\<close> writes the properties of an object in insertion order and leaves out
  a property whose value is \<open>undefined\<close>. Its output is modelled as the JSON value it
  denotes: the text of such a value has no whitespace, quotes and escapes every string and
  delimits every number, so two texts are equal exactly when the values are.
\<close>

datatype json =
  JBool bool
| JNumber int
| JString string
| JObject "(string \<times> json) list"

definition property :: "string \<Rightarrow> json option \<Rightarrow> (string \<times> json) list" where
  "property k v = (case v of None \<Rightarrow> [] | Some j \<Rightarrow> [(k, j)])"

definition stringifyRateLimitInfo :: "RateLimitInfo \<Rightarrow> json" where
  "stringifyRateLimitInfo i =
     JObject [(''resetTime'', JNumber (resetTime i)),
              (''timeUntilReset'', JNumber (timeUntilReset i)),
              (''isExpired'', JBool (isExpired i))]"

definition stringifyRateLimits :: "RateLimits \<Rightarrow> json" where
  "stringifyRateLimits r =
     JObject (property ''claude'' (map_option stringifyRateLimitInfo (rl_claude r)) @
              property ''gemini'' (map_option stringifyRateLimitInfo (rl_gemini r)))"

fun stringifyStatus :: "AccountStatus \<Rightarrow> json" where
  "stringifyStatus available = JString ''available''"
| "stringifyStatus rate_limited_claude = JString ''rate_limited_claude''"
| "stringifyStatus rate_limited_gemini = JString ''rate_limited_gemini''"
| "stringifyStatus rate_limited_all = JString ''rate_limited_all''"

definition JSON_stringify :: "LocalAccount \<Rightarrow> json" where
  "JSON_stringify a =
     JObject ([(''email'', JString (email a))] @
              property ''projectId'' (map_option JString (projectId a)) @
              property ''managedProjectId'' (map_option JString (managedProjectId a)) @
              [(''addedAt'', JNumber (addedAt a)),
               (''lastUsed'', JNumber (lastUsed a)),
               (''isActive'', JBool (isActive a)),
               (''activeForClaude'', JBool (activeForClaude a)),
               (''activeForGemini'', JBool (activeForGemini a)),
               (''status'', stringifyStatus (status a)),
               (''rateLimits'', stringifyRateLimits (rateLimits a))])"

subsection \<open>The JavaScript Map\<close>

text \<open>
  A \<open>Map\<close> keeps its keys in the order of their first insertion; setting a key that is
  already there replaces the value in place. \<open>new Map(entries)\<close> sets the entries one
  after the other.
\<close>

fun js_map_set :: "('k \<times> 'v) list \<Rightarrow> 'k \<Rightarrow> 'v \<Rightarrow> ('k \<times> 'v) list" where
  "js_map_set [] k v = [(k, v)]"
| "js_map_set ((k', v') # m) k v =
     (if k' = k then (k, v) # m else (k', v') # js_map_set m k v)"

definition js_map_new :: "('k \<times> 'v) list \<Rightarrow> ('k \<times> 'v) list" where
  "js_map_new entries = foldl (\<lambda>m (k, v). js_map_set m k v) [] entries"

definition js_map_get :: "('k \<times> 'v) list \<Rightarrow> 'k \<Rightarrow> 'v option" where
  "js_map_get m k = map_of m k"

definition js_map_has :: "('k \<times> 'v) list \<Rightarrow> 'k \<Rightarrow> bool" where
  "js_map_has m k = (k \<in> set (map fst m))"

definition js_map_keys :: "('k \<times> 'v) list \<Rightarrow> 'k list" where
  "js_map_keys m = map fst m"

subsection \<open>calculateDiffs\<close>

definition calculateDiffs :: "LocalAccount list \<Rightarrow> LocalAccount list \<Rightarrow> AccountDiff list" where
  "calculateDiffs previous current =
     (let prevMap = js_map_new (map (\<lambda>a. (email a, a)) previous);
          currMap = js_map_new (map (\<lambda>a. (email a, a)) current);
          diffs1 = concat (map (\<lambda>(e, account).
                      (case js_map_get prevMap e of
                         None \<Rightarrow> [Add e account]
                       | Some prev \<Rightarrow>
                           if JSON_stringify prev \<noteq> JSON_stringify account
                           then [Update e account] else [])) currMap);
          diffs2 = concat (map (\<lambda>e. if \<not> js_map_has currMap e then [Remove e] else [])
                      (js_map_keys prevMap))
      in diffs1 @ diffs2)"

section \<open>Loading the registry (accountsFile.ts, loadAccountsFile)\<close>

text \<open>
  What the file system holds at the time of the load: no file (\<open>existsSync\<close> is false),
  a file that \<open>readFileSync\<close> fails on, or a file with some content.
\<close>

datatype registry_file = Missing | Unreadable | Content string

text \<open>
  What \<open>JSON.parse\<close> makes of a content: it throws a \<open>SyntaxError\<close>, or it returns a
  value that is no registry (\<open>data.accounts.map\<close> then throws a \<open>TypeError\<close>, before
  anything is assigned), or it returns a registry. The parser is a parameter.
\<close>

datatype parse_result = SyntaxError | TypeError | Parsed RawAccountsFile

text \<open>
  The whole body is inside \<open>try\<close>; the \<open>catch\<close> only logs. The result is the service
  afterwards and the events emitted, in order.
\<close>

definition loadAccountsFile ::
  "(string \<Rightarrow> parse_result) \<Rightarrow> registry_file \<Rightarrow> int \<Rightarrow> AccountsFileService
     \<Rightarrow> AccountsFileService \<times> event list" where
  "loadAccountsFile JSON_parse file now st =
     (case file of
        Missing \<Rightarrow> (st\<lparr>processedAccounts := [], lastData := None\<rparr>, [accounts_loaded []])
      | Unreadable \<Rightarrow> (st, [])
      | Content content \<Rightarrow>
          (case JSON_parse content of
             SyntaxError \<Rightarrow> (st, [])
           | TypeError \<Rightarrow> (st, [])
           | Parsed data \<Rightarrow>
               (let previousAccounts = processedAccounts st;
                    current = processAccounts data now;
                    diffs = calculateDiffs previousAccounts current
                in (st\<lparr>processedAccounts := current, lastData := Some data\<rparr>,
                    (if length diffs > 0 then [accounts_changed diffs] else []) @
                    [accounts_loaded current]))))"

section \<open>The quota poller (quotaService.ts)\<close>

text \<open>
  A model entry as \<open>parseQuotaResponse\<close> builds it. \<open>remainingPercent\<close> is
  \<open>Math.round(remainingFraction * 100)\<close>, an integer; the fraction itself, a double, is
  only carried along and is left out. \<open>resetTimeMs\<close> is the parsed \<open>resetTime\<close> or null.
\<close>

record ModelQuotaInfo =
  modelName :: string
  displayName :: "string option"
  remainingPercent :: int
  resetTimeIso :: "string option"
  resetTimeMs :: "int option"

record AccountQuota =
  q_email :: string
  q_projectId :: "string option"
  lastFetched :: int
  fetchError :: "string option"
  models :: "ModelQuotaInfo list"
  claudeModels :: "ModelQuotaInfo list"
  geminiModels :: "ModelQuotaInfo list"
  claudeQuotaPercent :: "int option"
  geminiQuotaPercent :: "int option"
  claudeResetTime :: "int option"
  geminiResetTime :: "int option"

record TokenCache =
  accessToken :: string
  expiresAt :: int

record QuotaService =
  cache_accounts :: "string \<Rightarrow> AccountQuota option"
  lastFullFetch :: int
  tokenCache :: "string \<Rightarrow> TokenCache option"

record QuotaAccount =
  qa_email :: string
  qa_refreshToken :: string
  qa_projectId :: "string option"

definition ANTIGRAVITY_ENDPOINTS :: "string list" where
  "ANTIGRAVITY_ENDPOINTS =
     [''https://cloudcode-pa.googleapis.com'',
      ''https://daily-cloudcode-pa.sandbox.googleapis.com'']"

text \<open>
  The answers of the outside world during the fetch of one account: the clock, the token
  endpoint (the request throws, the response is not ok, or it carries \<open>access_token\<close>
  and maybe \<open>expires_in\<close>) and each quota endpoint. A successful quota response is
  represented by what \<open>parseQuotaResponse\<close> does with it: it throws with a message, or it
  returns the model entries.
\<close>

datatype token_response = TokenThrows | TokenNotOk | TokenOk string "int option"

datatype FetchModelsResponse = Malformed string | Models "ModelQuotaInfo list"

datatype endpoint_response = EndpointThrows | EndpointNotOk | EndpointOk FetchModelsResponse

record network =
  net_now :: int
  tokenEndpoint :: token_response
  quotaEndpoint :: "string \<Rightarrow> endpoint_response"

datatype quota_event = quotas_updated "AccountQuota list"

subsection \<open>Token stage (refreshAccessToken)\<close>

definition refreshAccessToken ::
  "(string \<Rightarrow> TokenCache option) \<Rightarrow> int \<Rightarrow> string \<Rightarrow> token_response
     \<Rightarrow> string option \<times> (string \<Rightarrow> TokenCache option)" where
  "refreshAccessToken tc now refreshToken response =
     (let cached = tc refreshToken;
          reuse = (case cached of None \<Rightarrow> False | Some c \<Rightarrow> expiresAt c > now + 60000)
      in if reuse then (map_option accessToken cached, tc)
         else (case response of
                 TokenThrows \<Rightarrow> (None, tc)
               | TokenNotOk \<Rightarrow> (None, tc)
               | TokenOk token expires_in \<Rightarrow>
                   (let expiresIn = (case expires_in of
                                       None \<Rightarrow> 3600
                                     | Some n \<Rightarrow> if n = 0 then 3600 else n)
                    in (Some token,
                        tc(refreshToken \<mapsto>
                             \<lparr>accessToken = token, expiresAt = now + expiresIn * 1000\<rparr>)))))"

text \<open>\<open>!accessToken\<close>: null and the empty string are falsy.\<close>

definition noToken :: "string option \<Rightarrow> bool" where
  "noToken t = (case t of None \<Rightarrow> True | Some s \<Rightarrow> s = [])"

subsection \<open>Fetch stage (fetchAvailableModels)\<close>

fun tryEndpoints :: "(string \<Rightarrow> endpoint_response) \<Rightarrow> string list \<Rightarrow> FetchModelsResponse option" where
  "tryEndpoints respond [] = None"
| "tryEndpoints respond (endpoint # rest) =
     (case respond endpoint of
        EndpointOk data \<Rightarrow> Some data
      | EndpointNotOk \<Rightarrow> tryEndpoints respond rest
      | EndpointThrows \<Rightarrow> tryEndpoints respond rest)"

definition fetchAvailableModels :: "(string \<Rightarrow> endpoint_response) \<Rightarrow> FetchModelsResponse option" where
  "fetchAvailableModels respond = tryEndpoints respond ANTIGRAVITY_ENDPOINTS"

definition parseQuotaResponse :: "FetchModelsResponse \<Rightarrow> string + ModelQuotaInfo list" where
  "parseQuotaResponse data = (case data of Malformed message \<Rightarrow> Inl message | Models ms \<Rightarrow> Inr ms)"

subsection \<open>Family classification\<close>

text \<open>
  \<open>toLowerCase\<close> on the ASCII letters (a model name is ASCII) and \<open>String.prototype.includes\<close> (named \<open>js_includes\<close> here).
\<close>

definition toLowerChar :: "char \<Rightarrow> char" where
  "toLowerChar c =
     (let n = (of_char c :: nat) in if 65 \<le> n \<and> n \<le> 90 then char_of (n + 32) else c)"

definition toLowerCase :: "string \<Rightarrow> string" where
  "toLowerCase s = map toLowerChar s"

fun js_includes :: "string \<Rightarrow> string \<Rightarrow> bool" where
  "js_includes [] sub = (sub = [])"
| "js_includes (c # s) sub = (take (length sub) (c # s) = sub \<or> js_includes s sub)"

definition isClaudeModel :: "ModelQuotaInfo \<Rightarrow> bool" where
  "isClaudeModel m =
     (js_includes (toLowerCase (modelName m)) ''claude'' \<or>
      js_includes (toLowerCase (modelName m)) ''anthropic'')"

definition isGeminiModel :: "ModelQuotaInfo \<Rightarrow> bool" where
  "isGeminiModel m = js_includes (toLowerCase (modelName m)) ''gemini''"

subsection \<open>Aggregation and fetchQuotaForAccount\<close>

text \<open>
  \<open>ms.reduce((min, m) => m.remainingPercent < min.remainingPercent ? m : min)\<close> on a
  non-empty array: the first element starts as \<open>min\<close>. The source calls it only when
  \<open>ms.length > 0\<close>.
\<close>

definition minModel :: "ModelQuotaInfo \<Rightarrow> ModelQuotaInfo list \<Rightarrow> ModelQuotaInfo" where
  "minModel m0 rest =
     foldl (\<lambda>min m. if remainingPercent m < remainingPercent min then m else min) m0 rest"

definition aggregate :: "ModelQuotaInfo list \<Rightarrow> int option \<times> int option" where
  "aggregate ms =
     (case ms of
        [] \<Rightarrow> (None, None)
      | m0 # rest \<Rightarrow>
          (let minM = minModel m0 rest in (Some (remainingPercent minM), resetTimeMs minM)))"

text \<open>
  The result is \<open>Inl message\<close> when the call throws (then \<open>fetchAllQuotas\<close> catches it),
  \<open>Inr result\<close> when it returns; with it the service afterwards.
\<close>

definition fetchQuotaForAccount ::
  "QuotaService \<Rightarrow> network \<Rightarrow> string \<Rightarrow> string \<Rightarrow> string option
     \<Rightarrow> (string + AccountQuota) \<times> QuotaService" where
  "fetchQuotaForAccount st net em refreshToken pid =
     (let result = \<lparr>q_email = em, q_projectId = pid, lastFetched = net_now net,
                     fetchError = None, models = [], claudeModels = [], geminiModels = [],
                     claudeQuotaPercent = None, geminiQuotaPercent = None,
                     claudeResetTime = None, geminiResetTime = None\<rparr>;
          (token, tc) = refreshAccessToken (tokenCache st) (net_now net) refreshToken
                          (tokenEndpoint net);
          st1 = st\<lparr>tokenCache := tc\<rparr>
      in if noToken token
         then (Inr (result\<lparr>fetchError := Some ''Failed to refresh access token''\<rparr>), st1)
         else (case fetchAvailableModels (quotaEndpoint net) of
                 None \<Rightarrow>
                   (Inr (result\<lparr>fetchError := Some ''Failed to fetch models from API''\<rparr>), st1)
               | Some data \<Rightarrow>
                   (case parseQuotaResponse data of
                      Inl message \<Rightarrow> (Inl message, st1)
                    | Inr ms \<Rightarrow>
                        (let cms = filter isClaudeModel ms;
                             gms = filter isGeminiModel ms;
                             (cp, cr) = aggregate cms;
                             (gp, gr) = aggregate gms;
                             result' = result\<lparr>models := ms, claudeModels := cms,
                                               geminiModels := gms,
                                               claudeQuotaPercent := cp, claudeResetTime := cr,
                                               geminiQuotaPercent := gp, geminiResetTime := gr\<rparr>
                         in (Inr result',
                             st1\<lparr>cache_accounts := (cache_accounts st1)(em \<mapsto> result')\<rparr>)))))"

subsection \<open>One poll cycle (fetchAllQuotas)\<close>

text \<open>
  The body of the loop, for an account paired with the answers of the outside world
  during its turn: \<open>try\<close> the fetch; a thrown error is caught and recorded in a result
  of its own.
\<close>

definition pollAccount :: "QuotaService \<Rightarrow> QuotaAccount \<times> network \<Rightarrow> AccountQuota \<times> QuotaService" where
  "pollAccount st job =
     (let account = fst job; net = snd job;
          (r, st1) = fetchQuotaForAccount st net (qa_email account) (qa_refreshToken account)
                       (qa_projectId account);
          quota = (case r of
                     Inr q \<Rightarrow> q
                   | Inl message \<Rightarrow>
                       \<lparr>q_email = qa_email account, q_projectId = qa_projectId account,
                        lastFetched = net_now net, fetchError = Some message,
                        models = [], claudeModels = [], geminiModels = [],
                        claudeQuotaPercent = None, geminiQuotaPercent = None,
                        claudeResetTime = None, geminiResetTime = None\<rparr>)
      in (quota, st1))"

fun fetchLoop :: "QuotaService \<Rightarrow> (QuotaAccount \<times> network) list \<Rightarrow> AccountQuota list \<times> QuotaService" where
  "fetchLoop st [] = ([], st)"
| "fetchLoop st (job # rest) =
     (let (quota, st1) = pollAccount st job;
          (results, st2) = fetchLoop st1 rest
      in (quota # results, st2))"

definition fetchAllQuotas ::
  "QuotaService \<Rightarrow> (QuotaAccount \<times> network) list \<Rightarrow> int
     \<Rightarrow> AccountQuota list \<times> QuotaService \<times> quota_event list" where
  "fetchAllQuotas st jobs endNow =
     (let (results, st1) = fetchLoop st jobs
      in (results, st1\<lparr>lastFullFetch := endNow\<rparr>, [quotas_updated results]))"

section \<open>Notions of the specification\<close>

text \<open>The status of an account that is limited in one family only.\<close>

fun limitedOnly :: "family \<Rightarrow> AccountStatus" where
  "limitedOnly Claude = rate_limited_claude"
| "limitedOnly Gemini = rate_limited_gemini"

text \<open>
  A raw record's family has a reset epoch that the builder keeps and that lies after
  \<open>t\<close> and not after \<open>t'\<close>: its info is not expired at \<open>t\<close> and expired at \<open>t'\<close>.
\<close>

definition clearedBetween :: "family \<Rightarrow> int \<Rightarrow> int \<Rightarrow> RawAccountData \<Rightarrow> bool" where
  "clearedBetween f t t' raw =
     (case rawReset f raw of None \<Rightarrow> False | Some r \<Rightarrow> r \<noteq> 0 \<and> t < r \<and> r \<le> t')"

text \<open>The identifier a change event is about.\<close>

fun diffEmail :: "AccountDiff \<Rightarrow> string" where
  "diffEmail (Add e a) = e"
| "diffEmail (Update e a) = e"
| "diffEmail (Remove e) = e"

text \<open>A snapshot seen by identifier: the last record of the list with that identifier.\<close>

definition lastWithEmail :: "LocalAccount list \<Rightarrow> string \<Rightarrow> LocalAccount option" where
  "lastWithEmail xs e = find (\<lambda>a. email a = e) (rev xs)"

text \<open>
  Applying change events to an identifier-keyed state: an add inserts the account it
  carries, an update replaces the account by the state it carries, a remove deletes the
  identifier.
\<close>

fun applyDiff :: "(string \<Rightarrow> LocalAccount option) \<Rightarrow> AccountDiff \<Rightarrow> (string \<Rightarrow> LocalAccount option)" where
  "applyDiff m (Add e a) = m(e \<mapsto> a)"
| "applyDiff m (Update e a) = m(e \<mapsto> a)"
| "applyDiff m (Remove e) = m(e := None)"

definition applyDiffs :: "AccountDiff list \<Rightarrow> (string \<Rightarrow> LocalAccount option) \<Rightarrow> (string \<Rightarrow> LocalAccount option)" where
  "applyDiffs ds m = foldl applyDiff m ds"

text \<open>
  The poll of an account fails: the token stage returns no access token, or every quota
  endpoint fails.
\<close>

definition pollFails :: "QuotaService \<Rightarrow> QuotaAccount \<times> network \<Rightarrow> bool" where
  "pollFails st job =
     (noToken (fst (refreshAccessToken (tokenCache st) (net_now (snd job))
                      (qa_refreshToken (fst job)) (tokenEndpoint (snd job)))) \<or>
      fetchAvailableModels (quotaEndpoint (snd job)) = None)"

text \<open>The service after the first \<open>i\<close> accounts of a cycle.\<close>

definition stateAfter :: "QuotaService \<Rightarrow> (QuotaAccount \<times> network) list \<Rightarrow> nat \<Rightarrow> QuotaService" where
  "stateAfter st jobs i = snd (fetchLoop st (take i jobs))"

text \<open>What a change event leaves at its identifier.\<close>

fun payload :: "AccountDiff \<Rightarrow> LocalAccount option" where
  "payload (Add e a) = Some a"
| "payload (Update e a) = Some a"
| "payload (Remove e) = None"

text \<open>The rate-limit info of a family, and a raw record without the family's reset epoch.\<close>

fun familyInfo :: "family \<Rightarrow> LocalAccount \<Rightarrow> RateLimitInfo option" where
  "familyInfo Claude a = rl_claude (rateLimits a)"
| "familyInfo Gemini a = rl_gemini (rateLimits a)"

fun dropEpoch :: "family \<Rightarrow> RateLimitResetTimes \<Rightarrow> RateLimitResetTimes" where
  "dropEpoch Claude ts = ts\<lparr>reset_claude := None\<rparr>"
| "dropEpoch Gemini ts = ts\<lparr>reset_gemini := None\<rparr>"

definition withoutEpoch :: "family \<Rightarrow> RawAccountData \<Rightarrow> RawAccountData" where
  "withoutEpoch f raw = raw\<lparr>rateLimitResetTimes := map_option (dropEpoch f) (rateLimitResetTimes raw)\<rparr>"

text \<open>
  The notifications that a raw record gives rise to when the clock, having evaluated the
  record at \<open>t\<close>, evaluates it at \<open>t'\<close>.
\<close>

definition clearedEvents :: "int \<Rightarrow> int \<Rightarrow> RawAccountData \<Rightarrow> event list" where
  "clearedEvents t t' raw =
     (if clearedBetween Claude t t' raw then [rate_limit_cleared (raw_email raw) Claude] else []) @
     (if clearedBetween Gemini t t' raw then [rate_limit_cleared (raw_email raw) Gemini] else [])"

text \<open>The first model of a list with the least remaining percent.\<close>

definition firstMinimal :: "ModelQuotaInfo list \<Rightarrow> ModelQuotaInfo option" where
  "firstMinimal ms = find (\<lambda>m. remainingPercent m = Min (remainingPercent ` set ms)) ms"

section \<open>Example inputs\<close>

text \<open>
  A registry of three accounts: the first is limited for the first family until 60000,
  the second has no reset epochs, the third has the reset epoch 0.
\<close>

definition raw_a :: RawAccountData where
  "raw_a = \<lparr>raw_email = ''a@example.com'', raw_refreshToken = ''token-a'',
            raw_projectId = Some ''p1'', raw_managedProjectId = None,
            raw_addedAt = 100, raw_lastUsed = 200,
            rateLimitResetTimes = Some \<lparr>reset_claude = Some 60000, reset_gemini = None\<rparr>\<rparr>"

definition raw_b :: RawAccountData where
  "raw_b = \<lparr>raw_email = ''b@example.com'', raw_refreshToken = ''token-b'',
            raw_projectId = None, raw_managedProjectId = None,
            raw_addedAt = 300, raw_lastUsed = 400,
            rateLimitResetTimes = None\<rparr>"

definition raw_c :: RawAccountData where
  "raw_c = \<lparr>raw_email = ''c@example.com'', raw_refreshToken = ''token-c'',
            raw_projectId = None, raw_managedProjectId = None,
            raw_addedAt = 500, raw_lastUsed = 600,
            rateLimitResetTimes = Some \<lparr>reset_claude = Some 0, reset_gemini = None\<rparr>\<rparr>"

definition registry1 :: RawAccountsFile where
  "registry1 = \<lparr>version = 1, accounts = [raw_a, raw_b, raw_c], activeIndex = 0,
                activeIndexByFamily = None\<rparr>"

text \<open>The accounts the builder makes of the three records at time 0.\<close>

definition acc_a :: LocalAccount where
  "acc_a = \<lparr>email = ''a@example.com'', projectId = Some ''p1'', managedProjectId = None,
            addedAt = 100, lastUsed = 200, isActive = True, activeForClaude = True,
            activeForGemini = True, status = rate_limited_claude,
            rateLimits = \<lparr>rl_claude = Some \<lparr>resetTime = 60000, timeUntilReset = 60000,
                                              isExpired = False\<rparr>,
                          rl_gemini = None\<rparr>\<rparr>"

definition acc_b :: LocalAccount where
  "acc_b = \<lparr>email = ''b@example.com'', projectId = None, managedProjectId = None,
            addedAt = 300, lastUsed = 400, isActive = False, activeForClaude = False,
            activeForGemini = False, status = available,
            rateLimits = \<lparr>rl_claude = None, rl_gemini = None\<rparr>\<rparr>"

definition acc_c :: LocalAccount where
  "acc_c = \<lparr>email = ''c@example.com'', projectId = None, managedProjectId = None,
            addedAt = 500, lastUsed = 600, isActive = False, activeForClaude = False,
            activeForGemini = False, status = available,
            rateLimits = \<lparr>rl_claude = None, rl_gemini = None\<rparr>\<rparr>"

definition service0 :: AccountsFileService where
  "service0 = \<lparr>lastData = Some registry1, processedAccounts = [acc_a, acc_b, acc_c]\<rparr>"

text \<open>
  The third account with a later use, a parser that rejects every content and one that
  reads the example registry from every content.
\<close>

definition acc_c2 :: LocalAccount where
  "acc_c2 = acc_c\<lparr>lastUsed := 700\<rparr>"

definition rejectAll :: "string \<Rightarrow> parse_result" where
  "rejectAll content = SyntaxError"

definition readRegistry1 :: "string \<Rightarrow> parse_result" where
  "readRegistry1 content = Parsed registry1"

text \<open>
  Quota examples: three models of the first family and one of the second; a network
  whose first quota endpoint is down and whose second answers with these models; a
  network whose quota endpoints all fail; a service that holds a record for the first
  account.
\<close>

definition model1 :: ModelQuotaInfo where
  "model1 = \<lparr>modelName = ''Claude-Opus'', displayName = Some ''Claude Opus'',
             remainingPercent = 70, resetTimeIso = Some ''1970-01-01T00:00:00.100Z'',
             resetTimeMs = Some 100\<rparr>"

definition model2 :: ModelQuotaInfo where
  "model2 = \<lparr>modelName = ''claude-sonnet'', displayName = None,
             remainingPercent = 40, resetTimeIso = Some ''1970-01-01T00:00:00.900Z'',
             resetTimeMs = Some 900\<rparr>"

definition model3 :: ModelQuotaInfo where
  "model3 = \<lparr>modelName = ''anthropic-haiku'', displayName = None,
             remainingPercent = 90, resetTimeIso = Some ''1970-01-01T00:00:02.000Z'',
             resetTimeMs = Some 2000\<rparr>"

definition model4 :: ModelQuotaInfo where
  "model4 = \<lparr>modelName = ''gemini-pro'', displayName = None,
             remainingPercent = 55, resetTimeIso = None, resetTimeMs = None\<rparr>"

definition net_ok :: network where
  "net_ok = \<lparr>net_now = 1000, tokenEndpoint = TokenOk ''access'' (Some 3600),
             quotaEndpoint = (\<lambda>endpoint.
               if endpoint = ''https://cloudcode-pa.googleapis.com'' then EndpointNotOk
               else EndpointOk (Models [model1, model2, model3, model4]))\<rparr>"

definition net_down :: network where
  "net_down = \<lparr>net_now = 2000, tokenEndpoint = TokenOk ''access'' None,
               quotaEndpoint = (\<lambda>endpoint. EndpointThrows)\<rparr>"

definition quota_a :: AccountQuota where
  "quota_a = \<lparr>q_email = ''a@example.com'', q_projectId = Some ''p1'', lastFetched = 1000,
              fetchError = None, models = [model1, model2, model3, model4],
              claudeModels = [model1, model2, model3], geminiModels = [model4],
              claudeQuotaPercent = Some 40, geminiQuotaPercent = Some 55,
              claudeResetTime = Some 900, geminiResetTime = None\<rparr>"

definition qacc_a :: QuotaAccount where
  "qacc_a = \<lparr>qa_email = ''a@example.com'', qa_refreshToken = ''token-a'',
             qa_projectId = Some ''p1''\<rparr>"

definition qacc_b :: QuotaAccount where
  "qacc_b = \<lparr>qa_email = ''b@example.com'', qa_refreshToken = ''token-b'',
             qa_projectId = None\<rparr>"

definition quota0 :: QuotaService where
  "quota0 = \<lparr>cache_accounts = Map.empty, lastFullFetch = 0, tokenCache = Map.empty\<rparr>"

definition quota1 :: QuotaService where
  "quota1 = \<lparr>cache_accounts = [''a@example.com'' \<mapsto> quota_a], lastFullFetch = 1000,
             tokenCache = Map.empty\<rparr>"

text \<open>The record that the second account gets from the answering network.\<close>

definition quota_b :: AccountQuota where
  "quota_b = \<lparr>q_email = ''b@example.com'', q_projectId = None, lastFetched = 1000,
              fetchError = None, models = [model1, model2, model3, model4],
              claudeModels = [model1, model2, model3], geminiModels = [model4],
              claudeQuotaPercent = Some 40, geminiQuotaPercent = Some 55,
              claudeResetTime = Some 900, geminiResetTime = None\<rparr>"

text \<open>
  The example service after a tick at 15000, and after a reload of the unchanged registry
  at 60500 that follows this tick.
\<close>

definition afterTick :: AccountsFileService where
  "afterTick = fst (ticks [15000] service0)"

definition afterReload :: AccountsFileService where
  "afterReload = fst (loadAccountsFile readRegistry1 (Content ''registry'') 60500 afterTick)"

section \<open>Status derivation: results\<close>

lemma calculateAccountStatus_rule:
  "calculateAccountStatus a = statusRule (rl_claude (rateLimits a)) (rl_gemini (rateLimits a))"
  by (cases "rl_claude (rateLimits a)"; cases "rl_gemini (rateLimits a)")
     (simp_all add: calculateAccountStatus_def limited_def)

lemma processAccount_status:
  "status (processAccount data now i raw) = calculateAccountStatus (processAccount data now i raw)"
  by (simp add: processAccount_def Let_def calculateAccountStatus_def)

lemma processFrom_status:
  "a \<in> set (processFrom data now n raws) \<Longrightarrow> status a = calculateAccountStatus a"
  by (auto simp: processFrom_def processAccount_status)

lemma updateAccount_status:
  "status (fst (updateAccount now a)) = calculateAccountStatus (fst (updateAccount now a))"
  by (simp add: updateAccount_def Let_def calculateAccountStatus_def split: prod.splits)

lemma updateRateLimitTimers_status:
  "a \<in> set (fst (updateRateLimitTimers now accs)) \<Longrightarrow> status a = calculateAccountStatus a"
proof (induction accs)
  case Nil
  then show ?case by simp
next
  case (Cons x xs)
  obtain x' e c where ux: "updateAccount now x = (x', e, c)"
    by (cases "updateAccount now x") auto
  obtain xs' es cs where uxs: "updateRateLimitTimers now xs = (xs', es, cs)"
    by (cases "updateRateLimitTimers now xs") auto
  from Cons.prems ux uxs have "a = x' \<or> a \<in> set xs'" by simp
  then show ?case
  proof
    assume "a = x'"
    with updateAccount_status [of now x] ux show ?thesis by simp
  next
    assume "a \<in> set xs'"
    with Cons.IH uxs show ?thesis by simp
  qed
qed

lemma processAccounts_registry1: "processAccounts registry1 0 = [acc_a, acc_b, acc_c]"
  by (simp add: processAccounts_def processFrom_def registry1_def raw_a_def raw_b_def raw_c_def
      acc_a_def acc_b_def acc_c_def processAccount_def Let_def buildRateLimit_def rawReset_def
      familyIndex_def calculateAccountStatus_def limited_def enumerate_eq_zip upt_rec)

text \<open>
  Claim C1. The status is a function of the two rate-limit infos alone, with the
  precedence of the rule: \<open>calculateAccountStatus\<close> is \<open>statusRule\<close> of the two infos.
  Every account the builder returns and every account the status clock leaves carries
  the status that the rule derives from its own two infos.
\<close>

theorem status_derivation:
  "calculateAccountStatus a = statusRule (rl_claude (rateLimits a)) (rl_gemini (rateLimits a)) \<and>
   (\<forall>b \<in> set (processAccounts data now).
      status b = statusRule (rl_claude (rateLimits b)) (rl_gemini (rateLimits b))) \<and>
   (\<forall>b \<in> set (fst (updateRateLimitTimers now' accs)).
      status b = statusRule (rl_claude (rateLimits b)) (rl_gemini (rateLimits b)))"
  using processFrom_status [of _ data now 0 "accounts data"]
        updateRateLimitTimers_status [of _ now' accs]
  by (simp add: calculateAccountStatus_rule processAccounts_def)

theorem status_derivation_witness:
  "acc_a \<in> set (processAccounts registry1 0) \<and>
   status acc_a = statusRule (rl_claude (rateLimits acc_a)) (rl_gemini (rateLimits acc_a)) \<and>
   status acc_a = rate_limited_claude"
  using status_derivation [of acc_a registry1 0 0 "[]"]
  by (simp add: processAccounts_registry1) (simp add: acc_a_def)

section \<open>The builder: a reset epoch of 0\<close>

lemma familyIndex_accounts_update:
  "familyIndex f (data\<lparr>accounts := xs\<rparr>) = familyIndex f data"
  by (simp add: familyIndex_def cong: option.case_cong)

lemma processAccount_accounts_update:
  "processAccount (data\<lparr>accounts := xs\<rparr>) now i raw = processAccount data now i raw"
  by (simp add: processAccount_def familyIndex_accounts_update)

lemma processFrom_nth:
  "i < length raws \<Longrightarrow> processFrom data now n raws ! i = processAccount data now (n + i) (raws ! i)"
  by (simp add: processFrom_def nth_enumerate_eq)

lemma processFrom_length: "length (processFrom data now n raws) = length raws"
  by (simp add: processFrom_def)

lemma processAccount_zero_epoch:
  "rawReset f raw = Some 0 \<Longrightarrow>
     processAccount data now i (withoutEpoch f raw) = processAccount data now i raw"
  by (cases f) (auto simp: processAccount_def Let_def buildRateLimit_def rawReset_def
      withoutEpoch_def split: option.splits)

lemma processAccount_zero_info:
  "rawReset f raw = Some 0 \<Longrightarrow> familyInfo f (processAccount data now i raw) = None"
  by (cases f) (auto simp: processAccount_def Let_def buildRateLimit_def)

lemma status_needs_info:
  "familyInfo f a = None \<Longrightarrow>
     calculateAccountStatus a \<noteq> limitedOnly f \<and> calculateAccountStatus a \<noteq> rate_limited_all"
  by (cases f) (auto simp: calculateAccountStatus_def limited_def)

text \<open>
  Claim C9. For a raw record whose reset epoch of a family is 0, the builder produces no
  rate-limit info for that family, the derived status is neither the one of that family
  nor \<open>rate_limited_all\<close>, and the whole result is the one for the registry in which
  that epoch is absent.
\<close>

theorem zero_epoch_is_absent:
  assumes "i < length (accounts data)" and "rawReset f (accounts data ! i) = Some 0"
  shows "familyInfo f (processAccounts data now ! i) = None \<and>
         status (processAccounts data now ! i) \<noteq> limitedOnly f \<and>
         status (processAccounts data now ! i) \<noteq> rate_limited_all \<and>
         processAccounts data now =
           processAccounts (data\<lparr>accounts := (accounts data)[i := withoutEpoch f (accounts data ! i)]\<rparr>) now"
proof -
  let ?raws = "accounts data"
  let ?raws' = "?raws[i := withoutEpoch f (?raws ! i)]"
  have nth: "processAccounts data now ! i = processAccount data now i (?raws ! i)"
    using assms(1) by (simp add: processAccounts_def processFrom_nth)
  have info: "familyInfo f (processAccounts data now ! i) = None"
    using assms(2) by (simp add: nth processAccount_zero_info)
  have st: "status (processAccounts data now ! i) \<noteq> limitedOnly f \<and>
            status (processAccounts data now ! i) \<noteq> rate_limited_all"
    using status_needs_info [OF info] by (simp add: nth processAccount_status)
  have "processFrom data now 0 ?raws = processFrom data now 0 ?raws'"
  proof (rule nth_equalityI)
    show "length (processFrom data now 0 ?raws) = length (processFrom data now 0 ?raws')"
      by (simp add: processFrom_length)
  next
    fix j assume "j < length (processFrom data now 0 ?raws)"
    then have j: "j < length ?raws" by (simp add: processFrom_length)
    show "processFrom data now 0 ?raws ! j = processFrom data now 0 ?raws' ! j"
    proof (cases "j = i")
      case True
      with j assms(2) show ?thesis
        by (simp add: processFrom_nth processAccount_zero_epoch)
    next
      case False
      with j show ?thesis by (simp add: processFrom_nth)
    qed
  qed
  then have "processAccounts data now = processAccounts (data\<lparr>accounts := ?raws'\<rparr>) now"
    by (simp add: processAccounts_def processFrom_def processAccount_accounts_update)
  with info st show ?thesis by simp
qed

theorem zero_epoch_is_absent_witness:
  "2 < length (accounts registry1) \<and> rawReset Claude (accounts registry1 ! 2) = Some 0 \<and>
   familyInfo Claude (processAccounts registry1 0 ! 2) = None \<and>
   status (processAccounts registry1 0 ! 2) = available"
  using zero_epoch_is_absent [of 2 registry1 Claude 0]
  by (simp add: processAccounts_registry1) (simp add: registry1_def raw_c_def rawReset_def acc_c_def)

section \<open>The diff engine: results\<close>

subsection \<open>JSON.stringify decides value equality\<close>

lemma stringifyRateLimitInfo_inj:
  "(stringifyRateLimitInfo i = stringifyRateLimitInfo j) = (i = j)"
  by (cases i; cases j) (auto simp: stringifyRateLimitInfo_def)

lemma stringifyStatus_inj: "(stringifyStatus s = stringifyStatus t) = (s = t)"
  by (cases s; cases t) simp_all

lemma stringifyRateLimits_inj: "(stringifyRateLimits r = stringifyRateLimits r') = (r = r')"
  by (cases r; cases r')
     (auto simp: stringifyRateLimits_def property_def stringifyRateLimitInfo_inj
           split: option.splits)

lemma JSON_stringify_inj: "(JSON_stringify a = JSON_stringify b) = (a = b)"
  by (cases a; cases b)
     (auto simp: JSON_stringify_def property_def stringifyStatus_inj stringifyRateLimits_inj
           split: option.splits)

subsection \<open>The Map of a snapshot\<close>

lemma js_map_set_keys:
  "map fst (js_map_set m k v) = (if k \<in> set (map fst m) then map fst m else map fst m @ [k])"
  by (induction m) force+

lemma js_map_set_map_of: "map_of (js_map_set m k v) = (map_of m)(k \<mapsto> v)"
  by (induction m) (auto simp: fun_eq_iff)

lemma js_map_new_snoc: "js_map_new (es @ [(k, v)]) = js_map_set (js_map_new es) k v"
  by (simp add: js_map_new_def)

lemma js_map_new_distinct: "distinct (map fst (js_map_new es))"
proof (induction es rule: rev_induct)
  case Nil
  then show ?case by (simp add: js_map_new_def)
next
  case (snoc x xs)
  then show ?case by (cases x) (simp add: js_map_new_snoc js_map_set_keys)
qed

lemma js_map_new_map_of: "map_of (js_map_new es) = map_of (rev es)"
proof (induction es rule: rev_induct)
  case Nil
  then show ?case by (simp add: js_map_new_def)
next
  case (snoc x xs)
  then show ?case by (cases x) (simp add: js_map_new_snoc js_map_set_map_of)
qed

lemma map_of_keyed: "map_of (map (\<lambda>a. (f a, a)) ys) k = find (\<lambda>a. f a = k) ys"
  by (induction ys) auto

lemma get_byEmail:
  "js_map_get (js_map_new (map (\<lambda>a. (email a, a)) xs)) e = lastWithEmail xs e"
  by (simp add: js_map_get_def js_map_new_map_of lastWithEmail_def rev_map map_of_keyed)

lemma mem_byEmail:
  "((e, a) \<in> set (js_map_new (map (\<lambda>a. (email a, a)) xs))) = (lastWithEmail xs e = Some a)"
  using get_byEmail [of xs e]
    map_of_eq_Some_iff [OF js_map_new_distinct [of "map (\<lambda>a. (email a, a)) xs"], of e a]
  by (simp add: js_map_get_def)

lemma has_byEmail:
  "js_map_has (js_map_new (map (\<lambda>a. (email a, a)) xs)) e = (lastWithEmail xs e \<noteq> None)"
  using get_byEmail [of xs e]
    map_of_eq_None_iff [of "js_map_new (map (\<lambda>a. (email a, a)) xs)" e]
  by (auto simp: js_map_has_def js_map_get_def)

lemma keys_byEmail:
  "(e \<in> set (js_map_keys (js_map_new (map (\<lambda>a. (email a, a)) xs)))) = (lastWithEmail xs e \<noteq> None)"
  using has_byEmail [of xs e] by (simp add: js_map_has_def js_map_keys_def)

subsection \<open>The events of a diff\<close>

lemma diffs1_alt:
  "concat (map (\<lambda>(e, a). case m e of None \<Rightarrow> [Add e a]
                          | Some q \<Rightarrow> if q \<noteq> a then [Update e a] else []) xs) =
   map (\<lambda>(e, a). case m e of None \<Rightarrow> Add e a | Some q \<Rightarrow> Update e a)
     (filter (\<lambda>(e, a). case m e of None \<Rightarrow> True | Some q \<Rightarrow> q \<noteq> a) xs)"
  by (induction xs) (auto split: option.splits)

lemma diffs2_alt:
  "concat (map (\<lambda>e. if \<not> P e then [Remove e] else []) xs) = map Remove (filter (\<lambda>e. \<not> P e) xs)"
  by (induction xs) auto

lemma calculateDiffs_alt:
  "calculateDiffs p c =
     map (\<lambda>(e, a). case lastWithEmail p e of None \<Rightarrow> Add e a | Some q \<Rightarrow> Update e a)
       (filter (\<lambda>(e, a). case lastWithEmail p e of None \<Rightarrow> True | Some q \<Rightarrow> q \<noteq> a)
          (js_map_new (map (\<lambda>a. (email a, a)) c))) @
     map Remove (filter (\<lambda>e. \<not> lastWithEmail c e \<noteq> None)
          (js_map_keys (js_map_new (map (\<lambda>a. (email a, a)) p))))"
  unfolding calculateDiffs_def Let_def get_byEmail has_byEmail JSON_stringify_inj
  by (simp only: diffs1_alt diffs2_alt)

lemma Add_in_diffs:
  "(Add e a \<in> set (calculateDiffs p c)) = (lastWithEmail c e = Some a \<and> lastWithEmail p e = None)"
proof
  assume "Add e a \<in> set (calculateDiffs p c)"
  then show "lastWithEmail c e = Some a \<and> lastWithEmail p e = None"
    by (auto simp: calculateDiffs_alt mem_byEmail split: option.splits)
next
  assume h: "lastWithEmail c e = Some a \<and> lastWithEmail p e = None"
  let ?P = "\<lambda>(e, a). case lastWithEmail p e of None \<Rightarrow> True | Some q \<Rightarrow> q \<noteq> a"
  let ?g = "\<lambda>(e, a). case lastWithEmail p e of None \<Rightarrow> Add e a | Some q \<Rightarrow> Update e a"
  from h have "(e, a) \<in> set (filter ?P (js_map_new (map (\<lambda>a. (email a, a)) c)))"
    by (simp add: mem_byEmail)
  then have "?g (e, a) \<in> ?g ` set (filter ?P (js_map_new (map (\<lambda>a. (email a, a)) c)))"
    by (rule imageI)
  with h show "Add e a \<in> set (calculateDiffs p c)"
    by (simp add: calculateDiffs_alt)
qed

lemma Update_in_diffs:
  "(Update e a \<in> set (calculateDiffs p c)) =
     (lastWithEmail c e = Some a \<and> (\<exists>q. lastWithEmail p e = Some q \<and> q \<noteq> a))"
proof
  assume "Update e a \<in> set (calculateDiffs p c)"
  then show "lastWithEmail c e = Some a \<and> (\<exists>q. lastWithEmail p e = Some q \<and> q \<noteq> a)"
    by (auto simp: calculateDiffs_alt mem_byEmail split: option.splits)
next
  assume h: "lastWithEmail c e = Some a \<and> (\<exists>q. lastWithEmail p e = Some q \<and> q \<noteq> a)"
  let ?P = "\<lambda>(e, a). case lastWithEmail p e of None \<Rightarrow> True | Some q \<Rightarrow> q \<noteq> a"
  let ?g = "\<lambda>(e, a). case lastWithEmail p e of None \<Rightarrow> Add e a | Some q \<Rightarrow> Update e a"
  from h have "(e, a) \<in> set (filter ?P (js_map_new (map (\<lambda>a. (email a, a)) c)))"
    by (auto simp: mem_byEmail)
  then have "?g (e, a) \<in> ?g ` set (filter ?P (js_map_new (map (\<lambda>a. (email a, a)) c)))"
    by (rule imageI)
  moreover from h have "?g (e, a) = Update e a" by auto
  ultimately show "Update e a \<in> set (calculateDiffs p c)"
    by (simp add: calculateDiffs_alt)
qed

lemma Remove_in_diffs:
  "(Remove e \<in> set (calculateDiffs p c)) = (lastWithEmail p e \<noteq> None \<and> lastWithEmail c e = None)"
  by (auto simp: calculateDiffs_alt keys_byEmail split: option.splits)

lemma diffEmail_part1:
  "map diffEmail (map (\<lambda>(e, a). case m e of None \<Rightarrow> Add e a | Some q \<Rightarrow> Update e a) xs) = map fst xs"
  by (induction xs) (auto split: option.splits)

lemma diffs_distinct: "distinct (map diffEmail (calculateDiffs p c))"
proof -
  let ?cm = "js_map_new (map (\<lambda>a. (email a, a)) c)"
  let ?pm = "js_map_new (map (\<lambda>a. (email a, a)) p)"
  let ?P = "\<lambda>(e, a). case lastWithEmail p e of None \<Rightarrow> True | Some q \<Rightarrow> q \<noteq> a"
  let ?Q = "\<lambda>e. \<not> lastWithEmail c e \<noteq> None"
  have d1: "distinct (map fst (filter ?P ?cm))"
    by (rule distinct_map_filter) (rule js_map_new_distinct)
  have d2: "distinct (filter ?Q (js_map_keys ?pm))"
    by (simp add: js_map_keys_def js_map_new_distinct)
  have sub1: "\<And>e. e \<in> set (map fst (filter ?P ?cm)) \<Longrightarrow> lastWithEmail c e \<noteq> None"
    by (auto simp: mem_byEmail)
  have sub2: "\<And>e. e \<in> set (filter ?Q (js_map_keys ?pm)) \<Longrightarrow> lastWithEmail c e = None"
    by auto
  have disj: "set (map fst (filter ?P ?cm)) \<inter> set (filter ?Q (js_map_keys ?pm)) = {}"
    using sub1 sub2 by blast
  have m2: "map diffEmail (map Remove (filter ?Q (js_map_keys ?pm))) = filter ?Q (js_map_keys ?pm)"
    by (simp add: comp_def)
  show ?thesis
    unfolding calculateDiffs_alt map_append distinct_append diffEmail_part1 m2
    using d1 d2 disj by blast
qed

lemma calculateDiffs_same: "calculateDiffs s s = []"
proof -
  have "\<And>e a. (e, a) \<in> set (js_map_new (map (\<lambda>a. (email a, a)) s)) \<Longrightarrow> lastWithEmail s e = Some a"
    by (simp add: mem_byEmail)
  then have f1: "filter (\<lambda>(e, a). case lastWithEmail s e of None \<Rightarrow> True | Some q \<Rightarrow> q \<noteq> a)
          (js_map_new (map (\<lambda>a. (email a, a)) s)) = []"
    by (auto simp: filter_empty_conv)
  have f2: "filter (\<lambda>e. \<not> lastWithEmail s e \<noteq> None)
          (js_map_keys (js_map_new (map (\<lambda>a. (email a, a)) s))) = []"
    by (auto simp: filter_empty_conv keys_byEmail)
  show ?thesis
    unfolding calculateDiffs_alt f1 f2 by simp
qed

lemma applyDiffs_notin: "e \<notin> diffEmail ` set ds \<Longrightarrow> applyDiffs ds m e = m e"
proof (induction ds arbitrary: m)
  case Nil
  then show ?case by (simp add: applyDiffs_def)
next
  case (Cons d ds)
  then have "applyDiffs ds (applyDiff m d) e = applyDiff m d e"
    by simp
  moreover from Cons.prems have "applyDiff m d e = m e"
    by (cases d) auto
  ultimately show ?case by (simp add: applyDiffs_def)
qed

lemma applyDiff_payload: "applyDiff m d (diffEmail d) = payload d"
  by (cases d) auto

lemma applyDiffs_in:
  "distinct (map diffEmail ds) \<Longrightarrow> d \<in> set ds \<Longrightarrow> applyDiffs ds m (diffEmail d) = payload d"
proof (induction ds arbitrary: m)
  case Nil
  then show ?case by simp
next
  case (Cons x ds)
  show ?case
  proof (cases "d = x")
    case True
    with Cons.prems have "diffEmail d \<notin> diffEmail ` set ds" by auto
    then have "applyDiffs ds (applyDiff m x) (diffEmail d) = applyDiff m x (diffEmail d)"
      by (rule applyDiffs_notin)
    with True show ?thesis by (simp add: applyDiffs_def applyDiff_payload)
  next
    case False
    with Cons.prems have "d \<in> set ds" "distinct (map diffEmail ds)" by auto
    then have "applyDiffs ds (applyDiff m x) (diffEmail d) = payload d"
      using Cons.IH by blast
    then show ?thesis by (simp add: applyDiffs_def)
  qed
qed

lemma diffs_email_cases:
  assumes "d \<in> set (calculateDiffs p c)"
  shows "lastWithEmail c (diffEmail d) = payload d \<and>
         lastWithEmail p (diffEmail d) \<noteq> lastWithEmail c (diffEmail d)"
proof (cases d)
  case (Add e a)
  with assms Add_in_diffs [of e a p c] show ?thesis by simp
next
  case (Update e a)
  with assms Update_in_diffs [of e a p c] show ?thesis by auto
next
  case (Remove e)
  with assms Remove_in_diffs [of e p c] show ?thesis by auto
qed

lemma no_diff_same:
  assumes "e \<notin> diffEmail ` set (calculateDiffs p c)"
  shows "lastWithEmail p e = lastWithEmail c e"
proof (cases "lastWithEmail c e")
  case None
  show ?thesis
  proof (cases "lastWithEmail p e")
    case None
    with \<open>lastWithEmail c e = None\<close> show ?thesis by simp
  next
    case (Some q)
    with None have "Remove e \<in> set (calculateDiffs p c)" by (simp add: Remove_in_diffs)
    then have "diffEmail (Remove e) \<in> diffEmail ` set (calculateDiffs p c)" by (rule imageI)
    with assms show ?thesis by simp
  qed
next
  case (Some a)
  show ?thesis
  proof (cases "lastWithEmail p e")
    case None
    with Some have "Add e a \<in> set (calculateDiffs p c)" by (simp add: Add_in_diffs)
    then have "diffEmail (Add e a) \<in> diffEmail ` set (calculateDiffs p c)" by (rule imageI)
    with assms show ?thesis by simp
  next
    case (Some q)
    show ?thesis
    proof (cases "q = a")
      case True
      with Some \<open>lastWithEmail c e = Some a\<close> show ?thesis by simp
    next
      case False
      with Some \<open>lastWithEmail c e = Some a\<close> have "Update e a \<in> set (calculateDiffs p c)"
        by (simp add: Update_in_diffs)
      then have "diffEmail (Update e a) \<in> diffEmail ` set (calculateDiffs p c)" by (rule imageI)
      with assms show ?thesis by simp
    qed
  qed
qed

lemma emails_examples:
  "email acc_a = ''a@example.com''" "email acc_b = ''b@example.com''"
  "email acc_c = ''c@example.com''" "email acc_c2 = ''c@example.com''"
  by (simp_all add: acc_a_def acc_b_def acc_c_def acc_c2_def)

lemma examples_differ: "acc_c \<noteq> acc_c2" "acc_b \<noteq> acc_c" "acc_a \<noteq> acc_b" "acc_a \<noteq> acc_c"
  by (simp_all add: acc_a_def acc_b_def acc_c_def acc_c2_def)

lemma diffs_duplicate:
  "calculateDiffs [acc_a, acc_c] [acc_c, acc_a, acc_c2] = [Update ''c@example.com'' acc_c2]"
  by (simp add: calculateDiffs_def js_map_new_def js_map_get_def js_map_has_def js_map_keys_def
      emails_examples JSON_stringify_inj examples_differ)

text \<open>
  Claim C2. The diff is complete. Seen by identifier (the last record of each
  identifier, as the engine keys both snapshots), the operations of the diff applied to
  the previous snapshot give the current snapshot exactly: an add inserts the account it
  carries, an update replaces the account by the full new state it carries, a remove
  deletes the identifier.
\<close>

theorem roundtrip:
  "applyDiffs (calculateDiffs previous current) (lastWithEmail previous) = lastWithEmail current"
proof
  fix e
  show "applyDiffs (calculateDiffs previous current) (lastWithEmail previous) e = lastWithEmail current e"
  proof (cases "e \<in> diffEmail ` set (calculateDiffs previous current)")
    case True
    then obtain d where d: "d \<in> set (calculateDiffs previous current)" "e = diffEmail d"
      by auto
    with applyDiffs_in [OF diffs_distinct d(1)] diffs_email_cases [OF d(1)]
    show ?thesis by simp
  next
    case False
    with applyDiffs_notin [OF False] no_diff_same [OF False] show ?thesis by simp
  qed
qed

theorem roundtrip_witness:
  "applyDiffs (calculateDiffs [acc_a, acc_c] [acc_c, acc_a, acc_c2]) (lastWithEmail [acc_a, acc_c])
     ''c@example.com'' = Some acc_c2 \<and>
   lastWithEmail [acc_a, acc_c] ''c@example.com'' = Some acc_c"
  using roundtrip [of "[acc_a, acc_c]" "[acc_c, acc_a, acc_c2]"]
  by (simp add: lastWithEmail_def emails_examples)

text \<open>
  Claim C3. The diff of a snapshot with itself is empty, and the comparison of two
  accounts by \<open>JSON.stringify\<close> is equality of values (absent infos included).
\<close>

theorem diff_idempotent:
  "calculateDiffs s s = [] \<and> ((JSON_stringify a = JSON_stringify b) = (a = b))"
  by (simp add: calculateDiffs_same JSON_stringify_inj)

theorem diff_idempotent_witness:
  "calculateDiffs [acc_a, acc_c, acc_c2] [acc_a, acc_c, acc_c2] = [] \<and>
   JSON_stringify acc_c \<noteq> JSON_stringify acc_c2"
  using diff_idempotent [of "[acc_a, acc_c, acc_c2]" acc_c acc_c2]
  by (simp add: examples_differ)

text \<open>
  Claim C10. A diff has at most one event per identifier, and which events it has is
  decided by the last record of each identifier in the two snapshots: an add for an
  identifier whose last current record has no previous one, an update for one whose last
  records differ, a remove for one that has a previous record and no current one.
\<close>

theorem one_event_per_identifier:
  "distinct (map diffEmail (calculateDiffs p c)) \<and>
   ((Add e a \<in> set (calculateDiffs p c)) =
      (lastWithEmail c e = Some a \<and> lastWithEmail p e = None)) \<and>
   ((Update e a \<in> set (calculateDiffs p c)) =
      (lastWithEmail c e = Some a \<and> (\<exists>q. lastWithEmail p e = Some q \<and> q \<noteq> a))) \<and>
   ((Remove e \<in> set (calculateDiffs p c)) =
      (lastWithEmail p e \<noteq> None \<and> lastWithEmail c e = None))"
  by (simp only: diffs_distinct Add_in_diffs Update_in_diffs Remove_in_diffs simp_thms)

theorem one_event_per_identifier_witness:
  "calculateDiffs [acc_a, acc_c] [acc_c, acc_a, acc_c2] = [Update ''c@example.com'' acc_c2] \<and>
   distinct (map diffEmail (calculateDiffs [acc_a, acc_c] [acc_c, acc_a, acc_c2])) \<and>
   lastWithEmail [acc_c, acc_a, acc_c2] ''c@example.com'' = Some acc_c2"
  using one_event_per_identifier [of "[acc_a, acc_c]" "[acc_c, acc_a, acc_c2]" "''c@example.com''" acc_c2]
  by (simp add: diffs_duplicate)

section \<open>Loading the registry: results\<close>

text \<open>
  Claim C4. When the content of the registry file does not parse to a registry, the load
  returns the service as it was (\<open>processedAccounts\<close> and \<open>lastData\<close> included) and
  emits no event.
\<close>

theorem malformed_keeps_state:
  "\<forall>data. JSON_parse content \<noteq> Parsed data \<Longrightarrow>
     loadAccountsFile JSON_parse (Content content) now st = (st, [])"
  by (cases "JSON_parse content") (simp_all add: loadAccountsFile_def)

theorem malformed_keeps_state_witness:
  "(\<forall>data. rejectAll ''{not json'' \<noteq> Parsed data) \<and>
   loadAccountsFile rejectAll (Content ''{not json'') 5 service0 = (service0, [])"
  using malformed_keeps_state [of rejectAll "''{not json''" 5 service0]
  by (simp add: rejectAll_def)

text \<open>
  Claim C5, as stated, at an explicit input: three accounts are loaded and the file is
  missing. The only event is \<open>accounts_loaded\<close> with the empty list; no
  \<open>accounts_changed\<close> event, so no remove event, is emitted.
\<close>

theorem missing_counterexample:
  "map email (processedAccounts service0) = [''a@example.com'', ''b@example.com'', ''c@example.com''] \<and>
   snd (loadAccountsFile rejectAll Missing 5 service0) = [accounts_loaded []]"
  by (simp add: loadAccountsFile_def service0_def emails_examples)

text \<open>
  Claim C5, amended. When the registry file is missing, the account list becomes empty,
  \<open>lastData\<close> is cleared and exactly one event is emitted, \<open>accounts_loaded\<close> with
  the empty list, whether accounts existed before or not.
\<close>

theorem missing_is_empty_state:
  "loadAccountsFile JSON_parse Missing now st =
     (st\<lparr>processedAccounts := [], lastData := None\<rparr>, [accounts_loaded []])"
  by (simp add: loadAccountsFile_def)

theorem missing_is_empty_state_witness:
  "loadAccountsFile rejectAll Missing 5 service0 =
     (\<lparr>lastData = None, processedAccounts = []\<rparr>, [accounts_loaded []])"
  using missing_is_empty_state [of rejectAll 5 service0]
  by (simp add: service0_def)

section \<open>The status clock: results\<close>

lemma updateFamily_build:
  "updateFamily now (buildRateLimit r t) =
     (buildRateLimit r now, (case r of None \<Rightarrow> False | Some x \<Rightarrow> x \<noteq> 0 \<and> t < x \<and> x \<le> now))"
  by (auto simp: updateFamily_def buildRateLimit_def Let_def split: option.splits)

lemma updateAccount_build:
  "updateAccount now (processAccount data t i raw) =
     (processAccount data now i raw, clearedEvents t now raw,
      snd (snd (updateAccount now (processAccount data t i raw))))"
  by (simp add: updateAccount_def processAccount_def Let_def updateFamily_build
      clearedEvents_def clearedBetween_def calculateAccountStatus_def)

lemma updateRateLimitTimers_build:
  "fst (updateRateLimitTimers now (processFrom data t n raws)) = processFrom data now n raws \<and>
   fst (snd (updateRateLimitTimers now (processFrom data t n raws))) =
     concat (map (clearedEvents t now) raws)"
proof (induction raws arbitrary: n)
  case Nil
  then show ?case by (simp add: processFrom_def)
next
  case (Cons raw raws)
  have step: "processFrom data t n (raw # raws) =
      processAccount data t n raw # processFrom data t (Suc n) raws" for t
    by (simp add: processFrom_def)
  obtain ch where u: "updateAccount now (processAccount data t n raw) =
      (processAccount data now n raw, clearedEvents t now raw, ch)"
    using updateAccount_build [of now data t n raw] by blast
  obtain xs es cs where r: "updateRateLimitTimers now (processFrom data t (Suc n) raws) = (xs, es, cs)"
    by (cases "updateRateLimitTimers now (processFrom data t (Suc n) raws)") auto
  with Cons.IH [of "Suc n"] have "xs = processFrom data now (Suc n) raws"
      "es = concat (map (clearedEvents t now) raws)"
    by simp_all
  with u r show ?case by (simp add: step)
qed

lemma count_clearedEvents:
  "count_list (concat (map (clearedEvents t t') raws)) (rate_limit_cleared e f) =
     length (filter (\<lambda>raw. raw_email raw = e \<and> clearedBetween f t t' raw) raws)"
proof (induction raws)
  case Nil
  then show ?case by simp
next
  case (Cons raw raws)
  have "count_list (clearedEvents t t' raw) (rate_limit_cleared e f) =
          (if raw_email raw = e \<and> clearedBetween f t t' raw then 1 else 0)"
    by (cases f) (auto simp: clearedEvents_def)
  with Cons.IH show ?case by simp
qed

lemma tick_build:
  assumes "processedAccounts st = processAccounts data t"
  shows "processedAccounts (fst (tick now st)) = processAccounts data now \<and>
         count_list (snd (tick now st)) (rate_limit_cleared e f) =
           length (filter (\<lambda>raw. raw_email raw = e \<and> clearedBetween f t now raw) (accounts data))"
proof -
  obtain xs es cs where r: "updateRateLimitTimers now (processedAccounts st) = (xs, es, cs)"
    by (cases "updateRateLimitTimers now (processedAccounts st)") auto
  with assms updateRateLimitTimers_build [of now data t 0 "accounts data"]
  have "xs = processAccounts data now" "es = concat (map (clearedEvents t now) (accounts data))"
    by (simp_all add: processAccounts_def)
  with r show ?thesis
    by (simp add: tick_def count_clearedEvents)
qed

lemma length_filter_split:
  "\<forall>x \<in> set xs. R x = (P x \<or> Q x) \<and> \<not> (P x \<and> Q x) \<Longrightarrow>
     length (filter P xs) + length (filter Q xs) = length (filter R xs)"
  by (induction xs) auto

lemma clearedBetween_split:
  "t0 \<le> t \<Longrightarrow> t \<le> t' \<Longrightarrow>
     clearedBetween f t0 t' raw = (clearedBetween f t0 t raw \<or> clearedBetween f t t' raw) \<and>
     \<not> (clearedBetween f t0 t raw \<and> clearedBetween f t t' raw)"
  by (auto simp: clearedBetween_def split: option.splits)

lemma sorted_le_last: "sorted (t # ts) \<Longrightarrow> t \<le> last (t # ts)"
  by (induction ts arbitrary: t) auto

lemma ticks_build:
  assumes "sorted (t0 # ts)" and "processedAccounts st = processAccounts data t0"
  shows "processedAccounts (fst (ticks ts st)) = processAccounts data (last (t0 # ts)) \<and>
         count_list (snd (ticks ts st)) (rate_limit_cleared e f) =
           length (filter (\<lambda>raw. raw_email raw = e \<and> clearedBetween f t0 (last (t0 # ts)) raw)
                     (accounts data))"
  using assms
proof (induction ts arbitrary: t0 st)
  case Nil
  then show ?case by (simp add: clearedBetween_def split: option.splits)
next
  case (Cons t ts)
  obtain st1 evs where t1: "tick t st = (st1, evs)"
    by (cases "tick t st") auto
  obtain st2 evs' where t2: "ticks ts st1 = (st2, evs')"
    by (cases "ticks ts st1") auto
  from tick_build [OF Cons.prems(2), of t e f] t1
  have a1: "processedAccounts st1 = processAccounts data t"
    and c1: "count_list evs (rate_limit_cleared e f) =
       length (filter (\<lambda>raw. raw_email raw = e \<and> clearedBetween f t0 t raw) (accounts data))"
    by simp_all
  from Cons.prems(1) have s: "sorted (t # ts)" and le: "t0 \<le> t" by simp_all
  from Cons.IH [OF s a1] t2
  have a2: "processedAccounts st2 = processAccounts data (last (t # ts))"
    and c2: "count_list evs' (rate_limit_cleared e f) =
       length (filter (\<lambda>raw. raw_email raw = e \<and> clearedBetween f t (last (t # ts)) raw) (accounts data))"
    by simp_all
  have le2: "t \<le> last (t # ts)" using s by (rule sorted_le_last)
  have "length (filter (\<lambda>raw. raw_email raw = e \<and> clearedBetween f t0 t raw) (accounts data)) +
        length (filter (\<lambda>raw. raw_email raw = e \<and> clearedBetween f t (last (t # ts)) raw) (accounts data)) =
        length (filter (\<lambda>raw. raw_email raw = e \<and> clearedBetween f t0 (last (t # ts)) raw) (accounts data))"
    by (rule length_filter_split) (use clearedBetween_split [OF le le2] in blast)
  with c1 c2 have "count_list (evs @ evs') (rate_limit_cleared e f) =
        length (filter (\<lambda>raw. raw_email raw = e \<and> clearedBetween f t0 (last (t # ts)) raw) (accounts data))"
    by simp
  with a2 t1 t2 show ?case by simp
qed

lemma filter_distinct_key:
  "distinct (map g xs) \<Longrightarrow> i < length xs \<Longrightarrow>
     filter (\<lambda>x. g x = g (xs ! i) \<and> P x) xs = (if P (xs ! i) then [xs ! i] else [])"
proof (induction xs arbitrary: i)
  case Nil
  then show ?case by simp
next
  case (Cons a xs)
  show ?case
  proof (cases i)
    case 0
    from Cons.prems(1) have "g a \<notin> g ` set xs" by simp
    then have "\<forall>x \<in> set xs. g x \<noteq> g a" by (metis imageI)
    then have "filter (\<lambda>x. g x = g a \<and> P x) xs = []"
      by (simp add: filter_empty_conv)
    with 0 show ?thesis by simp
  next
    case (Suc j)
    with Cons.prems have j: "j < length xs" and d: "distinct (map g xs)" by simp_all
    from j have "g (xs ! j) \<in> g ` set xs" by simp
    moreover from Cons.prems(1) have "g a \<notin> g ` set xs" by simp
    ultimately have "g a \<noteq> g (xs ! j)" by metis
    with Cons.IH [OF d j] Suc show ?thesis by simp
  qed
qed

lemma cleared_then_available:
  assumes "status (processAccount data t0 i raw) = limitedOnly f"
    and "clearedBetween f t0 t' raw" and "t0 \<le> t'"
  shows "status (processAccount data t' i raw) = available"
  using assms
  by (cases f)
     (auto simp: processAccount_def Let_def calculateAccountStatus_def limited_def
        buildRateLimit_def clearedBetween_def split: option.splits if_splits)

lemma flipped_iff_limited:
  "clearedBetween f t t' raw =
     (limited (familyInfo f (processAccount data t i raw)) \<and>
      \<not> limited (familyInfo f (processAccount data t' i raw)))"
  by (cases f)
     (auto simp: processAccount_def Let_def limited_def buildRateLimit_def clearedBetween_def
        split: option.splits)

lemma registry1_emails: "distinct (map raw_email (accounts registry1))"
  by (simp add: registry1_def raw_a_def raw_b_def raw_c_def)

lemma registry1_first:
  "accounts registry1 ! 0 = raw_a" "raw_email raw_a = ''a@example.com''"
  "clearedBetween Claude 0 76000 raw_a" "length (accounts registry1) = 3"
  by (simp_all add: registry1_def raw_a_def clearedBetween_def rawReset_def)

lemma ticks_Cons:
  "ticks (t # ts) st =
     (fst (ticks ts (fst (tick t st))), snd (tick t st) @ snd (ticks ts (fst (tick t st))))"
  by (simp add: case_prod_beta)

lemma count_list_app: "count_list (xs @ ys) x = count_list xs x + count_list ys x"
  by (induction xs) auto

lemma registry1_flips:
  "length (filter (\<lambda>raw. raw_email raw = ''a@example.com'' \<and> clearedBetween Claude t t' raw)
             (accounts registry1)) = (if t < 60000 \<and> 60000 \<le> t' then 1 else 0)"
  by (simp add: registry1_def raw_a_def raw_b_def raw_c_def clearedBetween_def rawReset_def)

lemma registry1_info:
  "familyInfo Claude (processAccounts registry1 t ! 0) =
     Some \<lparr>resetTime = 60000, timeUntilReset = max 0 (60000 - t), isExpired = (60000 \<le> t)\<rparr>"
  by (simp add: processAccounts_def processFrom_nth registry1_def processAccount_def Let_def
      raw_a_def rawReset_def buildRateLimit_def)

lemma service0_built: "processedAccounts service0 = processAccounts registry1 0"
  by (simp add: service0_def processAccounts_registry1)

lemma clock_set_back:
  "count_list (snd (ticks [61000, 15000, 61000] service0))
     (rate_limit_cleared ''a@example.com'' Claude) = 2 \<and>
   processedAccounts (fst (ticks [61000, 15000, 61000] service0)) = processAccounts registry1 61000"
proof -
  let ?ev = "rate_limit_cleared ''a@example.com'' Claude"
  let ?s1 = "fst (tick 61000 service0)"
  let ?s2 = "fst (tick 15000 ?s1)"
  let ?s3 = "fst (tick 61000 ?s2)"
  note b1 = tick_build [OF service0_built, of 61000 "''a@example.com''" Claude]
  from b1 have p1: "processedAccounts ?s1 = processAccounts registry1 61000" by blast
  from b1 have c1: "count_list (snd (tick 61000 service0)) ?ev = 1"
    by (simp add: registry1_flips)
  note b2 = tick_build [OF p1, of 15000 "''a@example.com''" Claude]
  from b2 have p2: "processedAccounts ?s2 = processAccounts registry1 15000" by blast
  from b2 have c2: "count_list (snd (tick 15000 ?s1)) ?ev = 0"
    by (simp add: registry1_flips)
  note b3 = tick_build [OF p2, of 61000 "''a@example.com''" Claude]
  from b3 have p3: "processedAccounts ?s3 = processAccounts registry1 61000" by blast
  from b3 have c3: "count_list (snd (tick 61000 ?s2)) ?ev = 1"
    by (simp add: registry1_flips)
  have "ticks [61000, 15000, 61000] service0 =
      (?s3, snd (tick 61000 service0) @ snd (tick 15000 ?s1) @ snd (tick 61000 ?s2) @ [])"
    by (simp only: ticks_Cons ticks.simps(1) fst_conv snd_conv)
  with c1 c2 c3 p3 show ?thesis
    by (simp only: fst_conv snd_conv count_list_app count_list.simps) simp
qed

lemma afterTick_built:
  "processedAccounts afterTick = processAccounts registry1 15000 \<and>
   count_list (snd (ticks [15000] service0)) (rate_limit_cleared ''a@example.com'' Claude) = 0"
proof -
  have s: "sorted (0 # [15000 :: int])" by simp
  from ticks_build [OF s service0_built, of "''a@example.com''" Claude]
  show ?thesis
    by (simp del: ticks.simps add: afterTick_def registry1_flips)
qed

lemma afterReload_built:
  "processedAccounts afterReload = processAccounts registry1 60500 \<and>
   count_list (snd (loadAccountsFile readRegistry1 (Content ''registry'') 60500 afterTick))
     (rate_limit_cleared ''a@example.com'' Claude) = 0"
  by (simp add: afterReload_def loadAccountsFile_def readRegistry1_def Let_def)

lemma afterReload_ticks:
  "processedAccounts (fst (ticks [61000, 76000] afterReload)) = processAccounts registry1 76000 \<and>
   count_list (snd (ticks [61000, 76000] afterReload)) (rate_limit_cleared ''a@example.com'' Claude) = 0"
proof -
  have s: "sorted (60500 # [61000, 76000 :: int])" by simp
  from afterReload_built have p: "processedAccounts afterReload = processAccounts registry1 60500"
    by blast
  from ticks_build [OF s p, of "''a@example.com''" Claude]
  show ?thesis
    by (simp del: ticks.simps add: registry1_flips)
qed

text \<open>
  Claim C8, as stated, at two explicit inputs, the reset epoch 60000 of the first account
  unchanged throughout. First, ticks at 61000, 15000 and 61000 (the clock is set back
  between ticks): the notification for the first account and the first family is emitted
  twice. Second, a tick at 15000, a reload of the unchanged registry at 60500 and ticks at
  61000 and 76000: the info is not expired after the first tick and expired at the end,
  and no notification is emitted at all.
\<close>

theorem cleared_counterexample:
  "map_option resetTime (familyInfo Claude (processedAccounts service0 ! 0)) = Some 60000 \<and>
   map_option resetTime
     (familyInfo Claude (processedAccounts (fst (ticks [61000, 15000, 61000] service0)) ! 0)) =
     Some 60000 \<and>
   count_list (snd (ticks [61000, 15000, 61000] service0))
     (rate_limit_cleared ''a@example.com'' Claude) = 2 \<and>
   limited (familyInfo Claude (processedAccounts afterTick ! 0)) \<and>
   map_option resetTime (familyInfo Claude (processedAccounts afterReload ! 0)) = Some 60000 \<and>
   \<not> limited (familyInfo Claude (processedAccounts (fst (ticks [61000, 76000] afterReload)) ! 0)) \<and>
   count_list (snd (ticks [15000] service0) @
               snd (loadAccountsFile readRegistry1 (Content ''registry'') 60500 afterTick) @
               snd (ticks [61000, 76000] afterReload))
     (rate_limit_cleared ''a@example.com'' Claude) = 0"
proof -
  have a: "map_option resetTime (familyInfo Claude (processedAccounts service0 ! 0)) = Some 60000"
    by (simp only: service0_built registry1_info) simp
  have b: "map_option resetTime
     (familyInfo Claude (processedAccounts (fst (ticks [61000, 15000, 61000] service0)) ! 0)) =
     Some 60000"
    using clock_set_back by (simp only: registry1_info) simp
  have c: "limited (familyInfo Claude (processedAccounts afterTick ! 0))"
    using afterTick_built by (simp only: registry1_info) (simp add: limited_def)
  have d: "map_option resetTime (familyInfo Claude (processedAccounts afterReload ! 0)) = Some 60000"
    using afterReload_built by (simp only: registry1_info) simp
  have e: "\<not> limited (familyInfo Claude (processedAccounts (fst (ticks [61000, 76000] afterReload)) ! 0))"
    using afterReload_ticks by (simp only: registry1_info) (simp add: limited_def)
  from a b c d e clock_set_back afterTick_built afterReload_built afterReload_ticks
  show ?thesis
    by (simp only: count_list_app) simp
qed

text \<open>
  Claim C8, amended. The service holds the accounts that one load at time \<open>t0\<close> built
  from a registry, and only ticks of the clock follow, at the times \<open>ts\<close>, none before
  \<open>t0\<close> and none before the tick preceding it (no reload in between, the clock never
  set back). Then the accounts after the ticks are the ones the builder gives at the last
  tick: the reset epochs are unchanged, timers and status are recomputed by the status
  rule. The number of \<open>rate_limit_cleared\<close> notifications for an identifier and a
  family is the number of records with that identifier whose family has flipped from not
  expired to expired; a family of the account at position \<open>i\<close> has flipped exactly
  when it was limited at the load and is not limited after the ticks. With distinct
  identifiers the notification for that account and family is emitted exactly once over
  all the ticks if the family has flipped, and never otherwise. An account that was
  limited in that family only and whose family has flipped is \<open>available\<close> after the
  ticks.
\<close>

theorem cleared_exactly_once:
  assumes "sorted (t0 # ts)" and "processedAccounts st = processAccounts data t0"
    and "i < length (accounts data)"
  shows "processedAccounts (fst (ticks ts st)) = processAccounts data (last (t0 # ts)) \<and>
    count_list (snd (ticks ts st)) (rate_limit_cleared e f) =
      length (filter (\<lambda>raw. raw_email raw = e \<and> clearedBetween f t0 (last (t0 # ts)) raw)
                (accounts data)) \<and>
    clearedBetween f t0 (last (t0 # ts)) (accounts data ! i) =
      (limited (familyInfo f (processAccounts data t0 ! i)) \<and>
       \<not> limited (familyInfo f (processedAccounts (fst (ticks ts st)) ! i))) \<and>
    (distinct (map raw_email (accounts data)) \<longrightarrow>
       count_list (snd (ticks ts st)) (rate_limit_cleared (raw_email (accounts data ! i)) f) =
         (if clearedBetween f t0 (last (t0 # ts)) (accounts data ! i) then 1 else 0)) \<and>
    (status (processAccounts data t0 ! i) = limitedOnly f \<and>
     clearedBetween f t0 (last (t0 # ts)) (accounts data ! i) \<longrightarrow>
       status (processedAccounts (fst (ticks ts st)) ! i) = available)"
proof -
  let ?tl = "last (t0 # ts)"
  let ?raws = "accounts data"
  have fin: "processedAccounts (fst (ticks ts st)) = processAccounts data ?tl"
    using ticks_build [OF assms(1,2)] by blast
  have cnt: "count_list (snd (ticks ts st)) (rate_limit_cleared e f) =
      length (filter (\<lambda>raw. raw_email raw = e \<and> clearedBetween f t0 ?tl raw) ?raws)" for e
    using ticks_build [OF assms(1,2)] by blast
  have nth: "processAccounts data t ! i = processAccount data t i (?raws ! i)" for t
    using assms(3) by (simp add: processAccounts_def processFrom_nth)
  have flip: "clearedBetween f t0 ?tl (?raws ! i) =
      (limited (familyInfo f (processAccounts data t0 ! i)) \<and>
       \<not> limited (familyInfo f (processedAccounts (fst (ticks ts st)) ! i)))"
    unfolding fin nth by (rule flipped_iff_limited)
  have one: "count_list (snd (ticks ts st)) (rate_limit_cleared (raw_email (?raws ! i)) f) =
         (if clearedBetween f t0 ?tl (?raws ! i) then 1 else 0)"
    if d: "distinct (map raw_email ?raws)"
    unfolding cnt filter_distinct_key [OF d assms(3)] by simp
  have le: "t0 \<le> ?tl" using assms(1) by (rule sorted_le_last)
  have av: "status (processedAccounts (fst (ticks ts st)) ! i) = available"
    if "status (processAccounts data t0 ! i) = limitedOnly f"
      and "clearedBetween f t0 ?tl (?raws ! i)"
    using that le unfolding fin nth by (rule cleared_then_available)
  from fin cnt [of e] flip one av show ?thesis by blast
qed

theorem cleared_exactly_once_witness:
  "sorted [0, 15000, 61000, 76000 :: int] \<and>
   processedAccounts service0 = processAccounts registry1 0 \<and>
   status (processedAccounts service0 ! 0) = rate_limited_claude \<and>
   count_list (snd (ticks [15000, 61000, 76000] service0))
     (rate_limit_cleared ''a@example.com'' Claude) = 1 \<and>
   status (processedAccounts (fst (ticks [15000, 61000, 76000] service0)) ! 0) = available"
proof -
  have s: "sorted (0 # [15000, 61000, 76000 :: int])" by simp
  have p: "processedAccounts service0 = processAccounts registry1 0"
    by (simp add: service0_def processAccounts_registry1)
  have i: "0 < length (accounts registry1)" by (simp add: registry1_first)
  have st: "status (processAccounts registry1 0 ! 0) = limitedOnly Claude"
    by (simp add: processAccounts_registry1 acc_a_def)
  have st': "status (processedAccounts service0 ! 0) = rate_limited_claude"
    by (simp add: service0_def acc_a_def)
  note T = cleared_exactly_once [OF s p i, of "''a@example.com''" Claude]
  from T have "count_list (snd (ticks [15000, 61000, 76000] service0))
       (rate_limit_cleared (raw_email (accounts registry1 ! 0)) Claude) =
     (if clearedBetween Claude 0 (last (0 # [15000, 61000, 76000])) (accounts registry1 ! 0)
      then 1 else 0)"
    using registry1_emails by blast
  then have c: "count_list (snd (ticks [15000, 61000, 76000] service0))
       (rate_limit_cleared ''a@example.com'' Claude) = 1"
    by (simp del: ticks.simps add: registry1_first)
  have "clearedBetween Claude 0 (last (0 # [15000, 61000, 76000])) (accounts registry1 ! 0)"
    by (simp add: registry1_first)
  with T st have a: "status (processedAccounts (fst (ticks [15000, 61000, 76000] service0)) ! 0) = available"
    by blast
  from s p st' c a show ?thesis by (simp del: ticks.simps)
qed

section \<open>The quota poller: results\<close>

subsection \<open>Aggregation\<close>

lemma minModel_mem: "minModel m0 rest \<in> set (m0 # rest)"
  by (induction rest arbitrary: m0) (auto simp: minModel_def)

lemma minModel_le: "m \<in> set (m0 # rest) \<Longrightarrow> remainingPercent (minModel m0 rest) \<le> remainingPercent m"
proof (induction rest arbitrary: m0 m)
  case Nil
  then show ?case by (simp add: minModel_def)
next
  case (Cons y ys)
  show ?case
  proof (cases "remainingPercent y < remainingPercent m0")
    case True
    then have unfold: "minModel m0 (y # ys) = minModel y ys"
      by (simp add: minModel_def)
    have le1: "remainingPercent (minModel y ys) \<le> remainingPercent y"
      using Cons.IH [of y y] by simp
    from Cons.prems have "m = m0 \<or> m \<in> set (y # ys)" by auto
    then show ?thesis
    proof
      assume "m = m0" with le1 True show ?thesis unfolding unfold by simp
    next
      assume "m \<in> set (y # ys)" then show ?thesis unfolding unfold by (rule Cons.IH)
    qed
  next
    case False
    then have unfold: "minModel m0 (y # ys) = minModel m0 ys"
      by (simp add: minModel_def)
    have le1: "remainingPercent (minModel m0 ys) \<le> remainingPercent m0"
      using Cons.IH [of m0 m0] by simp
    from Cons.prems have "m = y \<or> m \<in> set (m0 # ys)" by auto
    then show ?thesis
    proof
      assume "m = y" with le1 False show ?thesis unfolding unfold by simp
    next
      assume "m \<in> set (m0 # ys)" then show ?thesis unfolding unfold by (rule Cons.IH)
    qed
  qed
qed

lemma minModel_Min:
  "remainingPercent (minModel m0 rest) = Min (remainingPercent ` set (m0 # rest))"
proof (rule sym, rule Min_eqI)
  show "finite (remainingPercent ` set (m0 # rest))" by simp
next
  fix y assume "y \<in> remainingPercent ` set (m0 # rest)"
  then obtain m where "m \<in> set (m0 # rest)" "y = remainingPercent m" by auto
  then show "remainingPercent (minModel m0 rest) \<le> y"
    using minModel_le [of m m0 rest] by simp
next
  show "remainingPercent (minModel m0 rest) \<in> remainingPercent ` set (m0 # rest)"
    using minModel_mem [of m0 rest] by (rule imageI)
qed

lemma minModel_first:
  "find (\<lambda>m. remainingPercent m = remainingPercent (minModel m0 rest)) (m0 # rest) =
     Some (minModel m0 rest)"
proof (induction rest arbitrary: m0)
  case Nil
  then show ?case by (simp add: minModel_def)
next
  case (Cons y ys)
  show ?case
  proof (cases "remainingPercent y < remainingPercent m0")
    case True
    then have unfold: "minModel m0 (y # ys) = minModel y ys"
      by (simp add: minModel_def)
    have "remainingPercent (minModel y ys) \<le> remainingPercent y"
      using minModel_le [of y y ys] by simp
    with True have ne: "remainingPercent m0 \<noteq> remainingPercent (minModel y ys)" by simp
    have ih: "find (\<lambda>m. remainingPercent m = remainingPercent (minModel y ys)) (y # ys) =
        Some (minModel y ys)"
      by (rule Cons.IH)
    have "find (\<lambda>m. remainingPercent m = remainingPercent (minModel y ys)) (m0 # y # ys) =
        find (\<lambda>m. remainingPercent m = remainingPercent (minModel y ys)) (y # ys)"
      using ne by (simp only: find.simps if_False)
    with ih show ?thesis unfolding unfold by (simp only:)
  next
    case False
    then have unfold: "minModel m0 (y # ys) = minModel m0 ys"
      by (simp add: minModel_def)
    have le1: "remainingPercent (minModel m0 ys) \<le> remainingPercent m0"
      using minModel_le [of m0 m0 ys] by simp
    have ih: "find (\<lambda>m. remainingPercent m = remainingPercent (minModel m0 ys)) (m0 # ys) =
        Some (minModel m0 ys)"
      by (rule Cons.IH)
    show ?thesis
    proof (cases "remainingPercent m0 = remainingPercent (minModel m0 ys)")
      case True
      with ih have "Some m0 = Some (minModel m0 ys)"
        by (simp only: find.simps simp_thms if_True)
      then have "m0 = minModel m0 ys" by (rule option.inject [THEN iffD1])
      then have eq: "minModel m0 ys = m0" by (rule sym)
      show ?thesis unfolding unfold eq by (simp only: find.simps simp_thms if_True)
    next
      case neq: False
      with le1 False have ney: "remainingPercent y \<noteq> remainingPercent (minModel m0 ys)" by simp
      from ih neq have "find (\<lambda>m. remainingPercent m = remainingPercent (minModel m0 ys)) ys =
          Some (minModel m0 ys)"
        by (simp only: find.simps if_False)
      with neq ney show ?thesis unfolding unfold by (simp only: find.simps if_False)
    qed
  qed
qed

lemma aggregate_nonempty:
  assumes "ms \<noteq> []"
  shows "\<exists>m. firstMinimal ms = Some m \<and>
           aggregate ms = (Some (Min (remainingPercent ` set ms)), resetTimeMs m)"
proof -
  from assms obtain m0 rest where ms: "ms = m0 # rest" by (cases ms) auto
  have "firstMinimal ms = Some (minModel m0 rest)"
    unfolding firstMinimal_def ms minModel_Min [symmetric] by (rule minModel_first)
  moreover have "aggregate ms = (Some (Min (remainingPercent ` set ms)), resetTimeMs (minModel m0 rest))"
    unfolding ms minModel_Min [symmetric] by (simp add: aggregate_def Let_def)
  ultimately show ?thesis by blast
qed

lemma fetch_success:
  assumes "fetchQuotaForAccount st net em rt pid = (Inr q, st')" and "fetchError q = None"
  shows "claudeModels q = filter isClaudeModel (models q) \<and>
         geminiModels q = filter isGeminiModel (models q) \<and>
         aggregate (claudeModels q) = (claudeQuotaPercent q, claudeResetTime q) \<and>
         aggregate (geminiModels q) = (geminiQuotaPercent q, geminiResetTime q) \<and>
         cache_accounts st' em = Some q"
  using assms
  by (auto simp: fetchQuotaForAccount_def Let_def
        split: prod.splits if_splits option.splits sum.splits)

lemma classify_examples:
  "isClaudeModel model1" "isClaudeModel model2" "isClaudeModel model3" "\<not> isClaudeModel model4"
  "\<not> isGeminiModel model1" "\<not> isGeminiModel model2" "\<not> isGeminiModel model3" "isGeminiModel model4"
  by code_simp+

lemma fetch_example:
  "fst (fetchQuotaForAccount quota0 net_ok ''a@example.com'' ''token-a'' (Some ''p1'')) = Inr quota_a"
  by (simp add: fetchQuotaForAccount_def Let_def refreshAccessToken_def quota0_def net_ok_def
      noToken_def fetchAvailableModels_def ANTIGRAVITY_ENDPOINTS_def parseQuotaResponse_def
      classify_examples aggregate_def minModel_def quota_a_def)
     (simp add: model1_def model2_def model3_def model4_def)

text \<open>
  Claim C6. For a quota record fetched without error, the models of a family are the
  models whose name matches the family. When a family has a model, its quota percent is
  the least remaining percent of its models, and its reset time is the reset time of the
  first of its models that has this least percent.
\<close>

theorem family_quota_is_minimum:
  assumes "fetchQuotaForAccount st net em rt pid = (Inr q, st')" and "fetchError q = None"
  shows "claudeModels q = filter isClaudeModel (models q) \<and>
         geminiModels q = filter isGeminiModel (models q) \<and>
         (claudeModels q \<noteq> [] \<longrightarrow>
            claudeQuotaPercent q = Some (Min (remainingPercent ` set (claudeModels q))) \<and>
            (\<exists>m. firstMinimal (claudeModels q) = Some m \<and> claudeResetTime q = resetTimeMs m)) \<and>
         (geminiModels q \<noteq> [] \<longrightarrow>
            geminiQuotaPercent q = Some (Min (remainingPercent ` set (geminiModels q))) \<and>
            (\<exists>m. firstMinimal (geminiModels q) = Some m \<and> geminiResetTime q = resetTimeMs m))"
proof -
  note s = fetch_success [OF assms]
  have c: "claudeQuotaPercent q = Some (Min (remainingPercent ` set (claudeModels q))) \<and>
            (\<exists>m. firstMinimal (claudeModels q) = Some m \<and> claudeResetTime q = resetTimeMs m)"
    if "claudeModels q \<noteq> []"
    using aggregate_nonempty [OF that] s by auto
  have g: "geminiQuotaPercent q = Some (Min (remainingPercent ` set (geminiModels q))) \<and>
            (\<exists>m. firstMinimal (geminiModels q) = Some m \<and> geminiResetTime q = resetTimeMs m)"
    if "geminiModels q \<noteq> []"
    using aggregate_nonempty [OF that] s by auto
  from s c g show ?thesis by blast
qed

theorem family_quota_is_minimum_witness:
  "fst (fetchQuotaForAccount quota0 net_ok ''a@example.com'' ''token-a'' (Some ''p1'')) = Inr quota_a \<and>
   fetchError quota_a = None \<and>
   claudeModels quota_a = [model1, model2, model3] \<and>
   map remainingPercent (claudeModels quota_a) = [70, 40, 90] \<and>
   map resetTimeMs (claudeModels quota_a) = [Some 100, Some 900, Some 2000] \<and>
   Min (remainingPercent ` set (claudeModels quota_a)) = 40 \<and>
   claudeQuotaPercent quota_a = Some 40 \<and>
   firstMinimal (claudeModels quota_a) = Some model2 \<and>
   claudeResetTime quota_a = Some 900"
proof -
  obtain st' where f: "fetchQuotaForAccount quota0 net_ok ''a@example.com'' ''token-a'' (Some ''p1'')
      = (Inr quota_a, st')"
    using fetch_example
    by (cases "fetchQuotaForAccount quota0 net_ok ''a@example.com'' ''token-a'' (Some ''p1'')") auto
  have e: "fetchError quota_a = None" by (simp add: quota_a_def)
  have ne: "claudeModels quota_a \<noteq> []" by (simp add: quota_a_def)
  from family_quota_is_minimum [OF f e] ne
  have "claudeQuotaPercent quota_a = Some (Min (remainingPercent ` set (claudeModels quota_a)))"
    by blast
  then have m: "Min (remainingPercent ` set (claudeModels quota_a)) = 40"
    by (simp add: quota_a_def)
  have fm: "firstMinimal (claudeModels quota_a) = Some model2"
    unfolding firstMinimal_def m
    by (simp add: quota_a_def model1_def model2_def model3_def)
  from fetch_example e m fm show ?thesis
    by (simp add: quota_a_def model1_def model2_def model3_def)
qed

subsection \<open>Failure containment\<close>

lemma pollAccount_email: "q_email (fst (pollAccount st job)) = qa_email (fst job)"
  by (auto simp: pollAccount_def fetchQuotaForAccount_def Let_def
        split: prod.splits if_splits option.splits sum.splits)

lemma pollAccount_fails:
  "pollFails st job \<Longrightarrow>
     fetchError (fst (pollAccount st job)) \<noteq> None \<and>
     cache_accounts (snd (pollAccount st job)) = cache_accounts st"
  by (auto simp: pollFails_def pollAccount_def fetchQuotaForAccount_def Let_def
        split: prod.splits if_splits option.splits sum.splits)

lemma pollAccount_error_cache:
  "fetchError (fst (pollAccount st job)) \<noteq> None \<Longrightarrow>
     cache_accounts (snd (pollAccount st job)) = cache_accounts st"
  by (auto simp: pollAccount_def fetchQuotaForAccount_def Let_def
        split: prod.splits if_splits option.splits sum.splits)

lemma pollAccount_other:
  "qa_email (fst job) \<noteq> e \<Longrightarrow>
     cache_accounts (snd (pollAccount st job)) e = cache_accounts st e"
  by (auto simp: pollAccount_def fetchQuotaForAccount_def Let_def
        split: prod.splits if_splits option.splits sum.splits)

lemma fetchLoop_Cons:
  "fetchLoop st (job # rest) =
     (fst (pollAccount st job) # fst (fetchLoop (snd (pollAccount st job)) rest),
      snd (fetchLoop (snd (pollAccount st job)) rest))"
  by (simp add: case_prod_beta)

lemma stateAfter_0: "stateAfter st jobs 0 = st"
  by (simp add: stateAfter_def)

lemma stateAfter_Suc_Cons:
  "stateAfter st (job # rest) (Suc i) = stateAfter (snd (pollAccount st job)) rest i"
  by (simp add: stateAfter_def fetchLoop_Cons del: fetchLoop.simps(2))

lemma fetchLoop_nth:
  "i < length jobs \<Longrightarrow>
     fst (fetchLoop st jobs) ! i = fst (pollAccount (stateAfter st jobs i) (jobs ! i)) \<and>
     stateAfter st jobs (Suc i) = snd (pollAccount (stateAfter st jobs i) (jobs ! i))"
proof (induction jobs arbitrary: st i)
  case Nil
  then show ?case by simp
next
  case (Cons job rest)
  show ?case
  proof (cases i)
    case 0
    then show ?thesis
      by (simp add: stateAfter_def fetchLoop_Cons del: fetchLoop.simps(2))
  next
    case (Suc j)
    with Cons.prems have j: "j < length rest" by simp
    from Cons.IH [OF j, of "snd (pollAccount st job)"] Suc show ?thesis
      by (simp add: stateAfter_Suc_Cons fetchLoop_Cons del: fetchLoop.simps(2))
  qed
qed

lemma fetchLoop_emails:
  "map q_email (fst (fetchLoop st jobs)) = map (\<lambda>job. qa_email (fst job)) jobs"
proof (induction jobs arbitrary: st)
  case Nil
  then show ?case by simp
next
  case (Cons job rest)
  from Cons.IH [of "snd (pollAccount st job)"] pollAccount_email [of st job]
  show ?case by (simp add: fetchLoop_Cons del: fetchLoop.simps(2))
qed

lemma fetchLoop_retains:
  "\<forall>j < length jobs. qa_email (fst (jobs ! j)) = e \<longrightarrow> pollFails (stateAfter st jobs j) (jobs ! j) \<Longrightarrow>
     cache_accounts (snd (fetchLoop st jobs)) e = cache_accounts st e"
proof (induction jobs arbitrary: st)
  case Nil
  then show ?case by simp
next
  case (Cons job rest)
  let ?st1 = "snd (pollAccount st job)"
  have first: "cache_accounts ?st1 e = cache_accounts st e"
  proof (cases "qa_email (fst job) = e")
    case True
    with Cons.prems [rule_format, of 0] have "pollFails st job"
      by (simp add: stateAfter_0)
    then show ?thesis by (simp add: pollAccount_fails)
  next
    case False
    then show ?thesis by (rule pollAccount_other)
  qed
  have "\<forall>j < length rest. qa_email (fst (rest ! j)) = e \<longrightarrow> pollFails (stateAfter ?st1 rest j) (rest ! j)"
  proof (intro allI impI)
    fix j assume "j < length rest" "qa_email (fst (rest ! j)) = e"
    with Cons.prems [rule_format, of "Suc j"] show "pollFails (stateAfter ?st1 rest j) (rest ! j)"
      by (simp add: stateAfter_Suc_Cons)
  qed
  then have "cache_accounts (snd (fetchLoop ?st1 rest)) e = cache_accounts ?st1 e"
    by (rule Cons.IH)
  with first show ?case by (simp add: fetchLoop_Cons del: fetchLoop.simps(2))
qed

lemma pollFails_example: "pollFails quota1 (qacc_a, net_down)"
  by (simp add: pollFails_def net_down_def fetchAvailableModels_def ANTIGRAVITY_ENDPOINTS_def)

lemma pollAccount_success_cached:
  "fetchError (fst (pollAccount st job)) = None \<Longrightarrow>
     cache_accounts (snd (pollAccount st job)) (qa_email (fst job)) = Some (fst (pollAccount st job))"
  by (auto simp: pollAccount_def fetchQuotaForAccount_def Let_def
        split: prod.splits if_splits option.splits sum.splits)

lemma stateAfter_all: "stateAfter st jobs (length jobs) = snd (fetchLoop st jobs)"
  by (simp add: stateAfter_def)

lemma poll_a_example:
  "tokenCache (snd (pollAccount quota1 (qacc_a, net_down))) ''token-b'' = None"
  by (simp add: pollAccount_def fetchQuotaForAccount_def Let_def refreshAccessToken_def
      quota1_def net_down_def qacc_a_def noToken_def fetchAvailableModels_def
      ANTIGRAVITY_ENDPOINTS_def)

lemma poll_b_example:
  "tokenCache st ''token-b'' = None \<Longrightarrow> fst (pollAccount st (qacc_b, net_ok)) = quota_b"
  by (simp add: pollAccount_def fetchQuotaForAccount_def Let_def refreshAccessToken_def
      net_ok_def qacc_b_def noToken_def fetchAvailableModels_def ANTIGRAVITY_ENDPOINTS_def
      parseQuotaResponse_def classify_examples aggregate_def minModel_def quota_b_def)
     (simp add: model1_def model2_def model3_def model4_def)

text \<open>
  Claim C7. In a poll cycle, when the poll of the account at position \<open>i\<close> fails (no
  access token, or every quota endpoint fails): the result of that account carries a
  fetch error, and the cache after that account's turn is the cache before it; if every
  turn of that identifier in the cycle fails, the cache holds for it at the end of the
  cycle what it held at the start. The cycle goes on: every account of the cycle has its
  result, in order, and the result at each position is the one of that account's own
  poll, run in the service the turns before it have left; a result without a fetch error
  is the record the cache holds for its identifier after its turn. Whatever the cause, a
  turn whose result carries a fetch error leaves the cache as it was. The service at the
  end is the one after the last turn with the time of the cycle set, and the cycle ends
  with one \<open>quotas_updated\<close> event carrying the results.
\<close>

theorem failed_poll_is_contained:
  assumes "i < length jobs" and "pollFails (stateAfter st jobs i) (jobs ! i)"
  shows "map q_email (fst (fetchAllQuotas st jobs endNow)) = map (\<lambda>job. qa_email (fst job)) jobs \<and>
    snd (snd (fetchAllQuotas st jobs endNow)) = [quotas_updated (fst (fetchAllQuotas st jobs endNow))] \<and>
    fetchError (fst (fetchAllQuotas st jobs endNow) ! i) \<noteq> None \<and>
    cache_accounts (stateAfter st jobs (Suc i)) = cache_accounts (stateAfter st jobs i) \<and>
    ((\<forall>j < length jobs. qa_email (fst (jobs ! j)) = qa_email (fst (jobs ! i)) \<longrightarrow>
         pollFails (stateAfter st jobs j) (jobs ! j)) \<longrightarrow>
       cache_accounts (fst (snd (fetchAllQuotas st jobs endNow))) (qa_email (fst (jobs ! i))) =
         cache_accounts st (qa_email (fst (jobs ! i)))) \<and>
    (\<forall>j < length jobs. fetchError (fst (fetchAllQuotas st jobs endNow) ! j) \<noteq> None \<longrightarrow>
       cache_accounts (stateAfter st jobs (Suc j)) = cache_accounts (stateAfter st jobs j)) \<and>
    length (fst (fetchAllQuotas st jobs endNow)) = length jobs \<and>
    (\<forall>j < length jobs.
       fst (fetchAllQuotas st jobs endNow) ! j = fst (pollAccount (stateAfter st jobs j) (jobs ! j)) \<and>
       stateAfter st jobs (Suc j) = snd (pollAccount (stateAfter st jobs j) (jobs ! j))) \<and>
    (\<forall>j < length jobs. fetchError (fst (fetchAllQuotas st jobs endNow) ! j) = None \<longrightarrow>
       cache_accounts (stateAfter st jobs (Suc j)) (qa_email (fst (jobs ! j))) =
         Some (fst (fetchAllQuotas st jobs endNow) ! j)) \<and>
    stateAfter st jobs 0 = st \<and>
    fst (snd (fetchAllQuotas st jobs endNow)) = (stateAfter st jobs (length jobs))\<lparr>lastFullFetch := endNow\<rparr>"
proof -
  have res: "fst (fetchAllQuotas st jobs endNow) = fst (fetchLoop st jobs)"
    by (simp add: fetchAllQuotas_def split: prod.splits)
  have fin: "cache_accounts (fst (snd (fetchAllQuotas st jobs endNow))) =
      cache_accounts (snd (fetchLoop st jobs))"
    by (simp add: fetchAllQuotas_def split: prod.splits)
  have ev: "snd (snd (fetchAllQuotas st jobs endNow)) = [quotas_updated (fst (fetchAllQuotas st jobs endNow))]"
    by (simp add: fetchAllQuotas_def split: prod.splits)
  have last: "fst (snd (fetchAllQuotas st jobs endNow)) =
      (stateAfter st jobs (length jobs))\<lparr>lastFullFetch := endNow\<rparr>"
    by (simp add: fetchAllQuotas_def stateAfter_all split: prod.splits)
  note n = fetchLoop_nth [OF assms(1), of st]
  note f = pollAccount_fails [OF assms(2)]
  have err: "fetchError (fst (fetchAllQuotas st jobs endNow) ! i) \<noteq> None"
    using n f by (simp add: res)
  have keep: "cache_accounts (stateAfter st jobs (Suc i)) = cache_accounts (stateAfter st jobs i)"
    using n f by simp
  have whole: "cache_accounts (fst (snd (fetchAllQuotas st jobs endNow))) (qa_email (fst (jobs ! i))) =
         cache_accounts st (qa_email (fst (jobs ! i)))"
    if "\<forall>j < length jobs. qa_email (fst (jobs ! j)) = qa_email (fst (jobs ! i)) \<longrightarrow>
         pollFails (stateAfter st jobs j) (jobs ! j)"
    unfolding fin using that by (rule fetchLoop_retains)
  have any: "cache_accounts (stateAfter st jobs (Suc j)) = cache_accounts (stateAfter st jobs j)"
    if "j < length jobs" and "fetchError (fst (fetchAllQuotas st jobs endNow) ! j) \<noteq> None" for j
    using fetchLoop_nth [OF that(1), of st] that(2) pollAccount_error_cache
    by (simp add: res)
  have len: "length (fst (fetchAllQuotas st jobs endNow)) = length jobs"
    using fetchLoop_emails [of st jobs] unfolding res by (rule map_eq_imp_length_eq)
  have each: "fst (fetchAllQuotas st jobs endNow) ! j = fst (pollAccount (stateAfter st jobs j) (jobs ! j)) \<and>
       stateAfter st jobs (Suc j) = snd (pollAccount (stateAfter st jobs j) (jobs ! j))"
    if "j < length jobs" for j
    unfolding res using that by (rule fetchLoop_nth)
  have cached: "cache_accounts (stateAfter st jobs (Suc j)) (qa_email (fst (jobs ! j))) =
         Some (fst (fetchAllQuotas st jobs endNow) ! j)"
    if "j < length jobs" and "fetchError (fst (fetchAllQuotas st jobs endNow) ! j) = None" for j
    using each [OF that(1)] that(2) pollAccount_success_cached by simp
  from fetchLoop_emails [of st jobs] ev err keep whole any len each cached stateAfter_0 [of st jobs] last
  show ?thesis
    unfolding res by blast
qed

theorem failed_poll_is_contained_witness:
  "0 < length [(qacc_a, net_down), (qacc_b, net_ok)] \<and>
   pollFails (stateAfter quota1 [(qacc_a, net_down), (qacc_b, net_ok)] 0)
     ([(qacc_a, net_down), (qacc_b, net_ok)] ! 0) \<and>
   cache_accounts quota1 ''a@example.com'' = Some quota_a \<and>
   fetchError (fst (fetchAllQuotas quota1 [(qacc_a, net_down), (qacc_b, net_ok)] 3000) ! 0) \<noteq> None \<and>
   map q_email (fst (fetchAllQuotas quota1 [(qacc_a, net_down), (qacc_b, net_ok)] 3000)) =
     [''a@example.com'', ''b@example.com''] \<and>
   cache_accounts (fst (snd (fetchAllQuotas quota1 [(qacc_a, net_down), (qacc_b, net_ok)] 3000)))
     ''a@example.com'' = Some quota_a \<and>
   fst (fetchAllQuotas quota1 [(qacc_a, net_down), (qacc_b, net_ok)] 3000) ! 1 = quota_b \<and>
   fetchError quota_b = None \<and>
   cache_accounts (fst (snd (fetchAllQuotas quota1 [(qacc_a, net_down), (qacc_b, net_ok)] 3000)))
     ''b@example.com'' = Some quota_b"
proof -
  let ?jobs = "[(qacc_a, net_down), (qacc_b, net_ok)]"
  let ?res = "fst (fetchAllQuotas quota1 ?jobs 3000)"
  let ?fin = "fst (snd (fetchAllQuotas quota1 ?jobs 3000))"
  have i: "0 < length ?jobs" by simp
  have f: "pollFails (stateAfter quota1 ?jobs 0) (?jobs ! 0)"
    by (simp add: stateAfter_0 pollFails_example)
  have c: "cache_accounts quota1 ''a@example.com'' = Some quota_a"
    by (simp add: quota1_def)
  have all: "\<forall>j < length ?jobs. qa_email (fst (?jobs ! j)) = qa_email (fst (?jobs ! 0)) \<longrightarrow>
         pollFails (stateAfter quota1 ?jobs j) (?jobs ! j)"
  proof (intro allI impI)
    fix j assume "j < length ?jobs" and e: "qa_email (fst (?jobs ! j)) = qa_email (fst (?jobs ! 0))"
    then have "j = 0 \<or> j = 1" by auto
    then show "pollFails (stateAfter quota1 ?jobs j) (?jobs ! j)"
    proof
      assume "j = 0" with f show ?thesis by simp
    next
      assume "j = 1" with e show ?thesis by (simp add: qacc_a_def qacc_b_def)
    qed
  qed
  note T = failed_poll_is_contained [OF i f, of 3000]
  from T have e: "fetchError (?res ! 0) \<noteq> None" by blast
  from T have m: "map q_email ?res = map (\<lambda>job. qa_email (fst job)) ?jobs" by blast
  from T all have k: "cache_accounts ?fin (qa_email (fst (?jobs ! 0))) =
         cache_accounts quota1 (qa_email (fst (?jobs ! 0)))" by blast
  have q: "qa_email (fst (?jobs ! 0)) = ''a@example.com''" by (simp add: qacc_a_def)
  from T have s0: "stateAfter quota1 ?jobs 0 = quota1" by blast
  from T have each: "\<forall>j < length ?jobs.
       ?res ! j = fst (pollAccount (stateAfter quota1 ?jobs j) (?jobs ! j)) \<and>
       stateAfter quota1 ?jobs (Suc j) = snd (pollAccount (stateAfter quota1 ?jobs j) (?jobs ! j))"
    by blast
  from each [rule_format, of 0] s0
  have s1: "stateAfter quota1 ?jobs (Suc 0) = snd (pollAccount quota1 (qacc_a, net_down))"
    by simp
  from each [rule_format, of "Suc 0"] s1
  have "?res ! Suc 0 = fst (pollAccount (snd (pollAccount quota1 (qacc_a, net_down))) (qacc_b, net_ok))"
    by simp
  then have r1: "?res ! Suc 0 = quota_b"
    by (simp only: poll_b_example [OF poll_a_example])
  have eb: "fetchError quota_b = None" by (simp add: quota_b_def)
  from T have "\<forall>j < length ?jobs. fetchError (?res ! j) = None \<longrightarrow>
       cache_accounts (stateAfter quota1 ?jobs (Suc j)) (qa_email (fst (?jobs ! j))) = Some (?res ! j)"
    by blast
  from this [rule_format, of "Suc 0"] r1 eb
  have cb: "cache_accounts (stateAfter quota1 ?jobs (Suc (Suc 0))) ''b@example.com'' = Some quota_b"
    by (simp add: qacc_b_def)
  from T have "?fin = (stateAfter quota1 ?jobs (length ?jobs))\<lparr>lastFullFetch := 3000\<rparr>" by blast
  then have "cache_accounts ?fin = cache_accounts (stateAfter quota1 ?jobs (Suc (Suc 0)))"
    by simp
  with cb have fb: "cache_accounts ?fin ''b@example.com'' = Some quota_b" by simp
  from r1 have r1': "?res ! 1 = quota_b" by simp
  from i f c e m k r1' eb fb show ?thesis
    unfolding q by (simp add: qacc_a_def qacc_b_def)
qed

end
